theory Spec2Isabelle
  imports
    Complex_Main
    "HOL-Library.Char_ord"
    "HOL-Library.List_Lexorder"
    "HOL-Library.Product_Lexorder"
    "HOL-Library.Multiset"
begin

section \<open>Store Credit Register: the model of \<open>app.py\<close>\<close>

text \<open>
  The application is one Streamlit script. Every interaction of the operator with a widget
  starts a new run of the script; a run receives the value of the one widget that was
  operated (a button reports a click in exactly one run) and the session state left by the
  previous run. The model therefore is a function from an event, a session state and a
  store to an outcome, the messages rendered, the new session state and the new store.

  Conventions of the model:
  \<^item> A Python float is modelled by its value, a real number. Every arithmetic operation
    of the source rounds the exact result to the nearest binary64 number, ties to even,
    the subnormal range included (\<open>fadd\<close>, \<open>fmul\<close>, \<open>fdiv\<close>); comparisons are exact.
    Infinities, NaN and the sign of zero are not modelled.
  \<^item> A Python string is modelled as the list of its code points (\<open>str\<close>); \<open>ustr\<close> gives
    the code points of an ASCII literal. The whitespace of \<open>str.strip\<close> is that of
    \<open>str.isspace\<close>. Field labels, dates and times, which the source builds from ASCII
    literals and \<open>strftime\<close>, are kept as \<open>string\<close>.
  \<^item> The table \<open>entries\<close> is a list of rows in insertion order together with the counter
    of the \<open>AUTOINCREMENT\<close> key. Failures of the database connection are not modelled.
  \<^item> An assignment to a key of \<open>st.session_state\<close> raises \<open>StreamlitAPIException\<close> when
    the widget with that key has already been instantiated in the run.
\<close>

subsection \<open>Constants\<close>

definition MAX_CHARGE_PERCENTAGE :: real where
  "MAX_CHARGE_PERCENTAGE = 10"

definition MAX_AMOUNT :: real where
  "MAX_AMOUNT = 1000000"

subsection \<open>Floats\<close>

text \<open>
  \<open>bit_length\<close> is the number of binary digits of a natural number, \<open>exponent x\<close> the
  integer \<open>e\<close> with \<open>2^e \<le> x < 2^(e + 1)\<close> for a positive \<open>x\<close>. \<open>round_double\<close> rounds to the
  nearest multiple of the unit in the last place of a binary64 number with 53 significant
  bits and least normal exponent -1022.
\<close>

fun bit_length :: "nat \<Rightarrow> nat" where
  "bit_length n = (if n = 0 then 0 else Suc (bit_length (n div 2)))"

declare bit_length.simps [simp del]

definition pow2 :: "int \<Rightarrow> real" where
  "pow2 k = (if 0 \<le> k then 2 ^ nat k else 1 / 2 ^ nat (- k))"

definition exponent :: "real \<Rightarrow> int" where
  "exponent x =
     (if 1 \<le> x then int (bit_length (nat \<lfloor>x\<rfloor>)) - 1
      else - int (bit_length (nat (\<lceil>1 / x\<rceil> - 1))))"

definition round_half_even :: "real \<Rightarrow> int" where
  "round_half_even r =
     (let f = \<lfloor>r\<rfloor>; d = r - of_int f
      in if d < 1 / 2 then f else if 1 / 2 < d then f + 1 else if even f then f else f + 1)"

definition round_double :: "real \<Rightarrow> real" where
  "round_double x =
     (if x = 0 then 0
      else let q = pow2 (max (exponent \<bar>x\<bar>) (- 1022) - 52)
           in sgn x * of_int (round_half_even (\<bar>x\<bar> / q)) * q)"

definition fadd :: "real \<Rightarrow> real \<Rightarrow> real" where
  "fadd x y = round_double (x + y)"

definition fmul :: "real \<Rightarrow> real \<Rightarrow> real" where
  "fmul x y = round_double (x * y)"

definition fdiv :: "real \<Rightarrow> real \<Rightarrow> real" where
  "fdiv x y = round_double (x / y)"

subsection \<open>Strings\<close>

type_synonym str = "nat list"

abbreviation ustr :: "string \<Rightarrow> str" where
  "ustr s \<equiv> map of_char s"

definition isspace :: "nat \<Rightarrow> bool" where
  "isspace n =
     ((9 \<le> n \<and> n \<le> 13) \<or> (28 \<le> n \<and> n \<le> 32) \<or> n = 133 \<or> n = 160 \<or> n = 5760
      \<or> (8192 \<le> n \<and> n \<le> 8202) \<or> n = 8232 \<or> n = 8233 \<or> n = 8239 \<or> n = 8287
      \<or> n = 12288)"

definition strip :: "str \<Rightarrow> str" where
  "strip s = rev (dropWhile isspace (rev (dropWhile isspace s)))"

subsection \<open>Data\<close>

datatype ctype = Office | Others

datatype pmode = Cash | UPI

text \<open>A line of the deposit or withdrawal list. The lines of \<open>defaults\<close> carry no \<open>id\<close>.\<close>

record line_item =
  amount :: real
  charge_pct :: real
  item_id :: "nat option"

record session =
  customer_name :: str
  customer_type :: ctype
  payment_mode :: pmode
  remarks :: str
  b_entries :: "line_item list"
  k_entries :: "line_item list"
  confirm_delete :: bool
  delete_id :: "nat option"
  b_counter :: nat
  k_counter :: nat

text \<open>A row of the table \<open>entries\<close>.\<close>

record entry =
  row_id :: nat
  entry_date :: string
  entry_time :: string
  row_customer_type :: ctype
  row_customer_name :: str
  row_payment_mode :: pmode
  b_amount :: real
  b_charges :: real
  k_amount :: real
  k_charges :: real
  grand_charges :: real
  row_remarks :: str

record store =
  rows :: "entry list"
  seq :: nat

text \<open>What a run renders with \<open>st.error\<close> and \<open>st.success\<close>, and how a run ends.\<close>

datatype bound = Negative | ExceedsMaximum

datatype exn = StreamlitAPIException string

datatype error = MissingField | OutOfRange string bound | UnexpectedError exn

datatype msg = St_error error | St_success string

datatype outcome = Completed | Stopped | Rerun | Raised

subsection \<open>Validation\<close>

text \<open>
  \<open>validate_amount\<close> and \<open>validate_charge_percentage\<close> return their verdict and the message
  they render with \<open>st.error\<close>.
\<close>

definition validate_amount :: "real \<Rightarrow> string \<Rightarrow> bool \<times> msg list" where
  "validate_amount a field_name =
     (if a < 0 then (False, [St_error (OutOfRange field_name Negative)])
      else if a > MAX_AMOUNT then (False, [St_error (OutOfRange field_name ExceedsMaximum)])
      else (True, []))"

definition validate_charge_percentage :: "real \<Rightarrow> string \<Rightarrow> bool \<times> msg list" where
  "validate_charge_percentage pct field_name =
     (if pct < 0 then (False, [St_error (OutOfRange (field_name @ '' percentage'') Negative)])
      else if pct > MAX_CHARGE_PERCENTAGE
        then (False, [St_error (OutOfRange (field_name @ '' percentage'') ExceedsMaximum)])
      else (True, []))"

subsection \<open>Session state\<close>

definition defaults :: session where
  "defaults =
     \<lparr>customer_name = [], customer_type = Office, payment_mode = Cash, remarks = [],
      b_entries = [\<lparr>amount = 0, charge_pct = 0, item_id = None\<rparr>],
      k_entries = [\<lparr>amount = 0, charge_pct = 0, item_id = None\<rparr>],
      confirm_delete = False, delete_id = None, b_counter = 1, k_counter = 1\<rparr>"

text \<open>
  \<open>reset_form\<close>, given the keys of the widgets instantiated so far in the run: its
  assignments in the order of the source, up to the first that raises.
\<close>

definition reset_form :: "string list \<Rightarrow> session \<Rightarrow> exn option \<times> session" where
  "reset_form instantiated s =
     (if ''customer_name'' \<in> set instantiated
        then (Some (StreamlitAPIException ''customer_name''), s)
      else
        let s1 = s\<lparr>customer_name := customer_name defaults\<rparr> in
        if ''customer_type'' \<in> set instantiated
          then (Some (StreamlitAPIException ''customer_type''), s1)
        else
          let s2 = s1\<lparr>customer_type := customer_type defaults\<rparr> in
          if ''payment_mode'' \<in> set instantiated
            then (Some (StreamlitAPIException ''payment_mode''), s2)
          else
            let s3 = s2\<lparr>payment_mode := payment_mode defaults\<rparr> in
            if ''remarks'' \<in> set instantiated
              then (Some (StreamlitAPIException ''remarks''), s3)
            else
              (None,
               s3\<lparr>remarks := remarks defaults,
                  b_entries := [\<lparr>amount = 0, charge_pct = 0, item_id = Some 0\<rparr>],
                  k_entries := [\<lparr>amount = 0, charge_pct = 0, item_id = Some 0\<rparr>],
                  b_counter := 1,
                  k_counter := 1\<rparr>))"

subsection \<open>The store\<close>

definition insert_entry :: "entry \<Rightarrow> store \<Rightarrow> store" where
  "insert_entry r db = \<lparr>rows = rows db @ [r\<lparr>row_id := Suc (seq db)\<rparr>], seq = Suc (seq db)\<rparr>"

definition delete_row :: "nat \<Rightarrow> store \<Rightarrow> store" where
  "delete_row eid db = db\<lparr>rows := filter (\<lambda>r. row_id r \<noteq> eid) (rows db)\<rparr>"

definition update_row :: "nat \<Rightarrow> (entry \<Rightarrow> entry) \<Rightarrow> store \<Rightarrow> store" where
  "update_row eid f db = db\<lparr>rows := map (\<lambda>r. if row_id r = eid then f r else r) (rows db)\<rparr>"

subsection \<open>The New Entry tab\<close>

datatype coll = B | K

text \<open>
  The interaction that started the run. A line is addressed by its position in the list;
  the number inputs deliver values between their \<open>min_value\<close> and \<open>max_value\<close> only.
\<close>

datatype event =
    NoEvent
  | SetCustomerType ctype
  | SetPaymentMode pmode
  | SetCustomerName str
  | SetRemarks str
  | SetAmount coll nat real
  | SetChargePct coll nat real
  | ClickRemove coll nat
  | ClickAdd coll
  | ClickSave

text \<open>The widgets bound to a session key with \<open>key=\<close>.\<close>

definition keyed_inputs :: "event \<Rightarrow> session \<Rightarrow> session" where
  "keyed_inputs ev s =
     (case ev of
        SetCustomerType t \<Rightarrow> s\<lparr>customer_type := t\<rparr>
      | SetPaymentMode m \<Rightarrow> s\<lparr>payment_mode := m\<rparr>
      | SetCustomerName n \<Rightarrow> s\<lparr>customer_name := n\<rparr>
      | SetRemarks r \<Rightarrow> s\<lparr>remarks := r\<rparr>
      | _ \<Rightarrow> s)"

text \<open>The value a number input of line \<open>i\<close> returns: the operator's, or the line's own.\<close>

definition amount_input :: "coll \<Rightarrow> event \<Rightarrow> nat \<Rightarrow> line_item \<Rightarrow> real" where
  "amount_input c ev i e =
     (case ev of SetAmount c' j v \<Rightarrow> if c' = c \<and> j = i then v else amount e | _ \<Rightarrow> amount e)"

definition charge_input :: "coll \<Rightarrow> event \<Rightarrow> nat \<Rightarrow> line_item \<Rightarrow> real" where
  "charge_input c ev i e =
     (case ev of SetChargePct c' j v \<Rightarrow> if c' = c \<and> j = i then v else charge_pct e
      | _ \<Rightarrow> charge_pct e)"

definition remove_clicked :: "coll \<Rightarrow> event \<Rightarrow> nat \<Rightarrow> bool" where
  "remove_clicked c ev i = (ev = ClickRemove c i)"

text \<open>The first loop of a section: a line without \<open>id\<close> takes the counter's value.\<close>

fun ensure_ids :: "line_item list \<Rightarrow> nat \<Rightarrow> line_item list \<times> nat" where
  "ensure_ids [] cnt = ([], cnt)"
| "ensure_ids (e # es) cnt =
     (case item_id e of
        None \<Rightarrow> (let (es', cnt') = ensure_ids es (Suc cnt) in (e\<lparr>item_id := Some cnt\<rparr> # es', cnt'))
      | Some _ \<Rightarrow> (let (es', cnt') = ensure_ids es cnt in (e # es', cnt')))"

text \<open>
  The second loop: line \<open>i\<close> takes the values of its two inputs, its charge is computed, its
  remove button exists when the list has more than one line, and the totals accumulate.
  The accumulator holds the lines already written back, \<open>entries_to_remove\<close>, and the two
  running totals.
\<close>

definition bind_inputs :: "coll \<Rightarrow> event \<Rightarrow> nat \<Rightarrow> line_item \<Rightarrow> line_item" where
  "bind_inputs c ev i e =
     (let e1 = e\<lparr>amount := amount_input c ev i e\<rparr>
      in e1\<lparr>charge_pct := charge_input c ev i e1\<rparr>)"

fun lines_loop ::
  "coll \<Rightarrow> event \<Rightarrow> nat \<Rightarrow> nat \<Rightarrow> line_item list \<Rightarrow>
   line_item list \<times> nat list \<times> real \<times> real \<Rightarrow> line_item list \<times> nat list \<times> real \<times> real"
where
  "lines_loop c ev n i [] acc = acc"
| "lines_loop c ev n i (e # es) (written, entries_to_remove, amt, chg) =
     (let e' = bind_inputs c ev i e;
          ch = fdiv (fmul (amount e') (charge_pct e')) 100;
          entries_to_remove' =
            (if n > 1 \<and> remove_clicked c ev i then entries_to_remove @ [i]
             else entries_to_remove)
      in lines_loop c ev n (Suc i) es
           (written @ [e'], entries_to_remove', fadd amt (amount e'), fadd chg ch))"

text \<open>\<open>list.pop(idx)\<close> raises \<open>IndexError\<close> out of range.\<close>

definition pop :: "nat \<Rightarrow> 'a list \<Rightarrow> 'a list option" where
  "pop idx xs = (if idx < length xs then Some (take idx xs @ drop (Suc idx) xs) else None)"

fun pop_all :: "nat list \<Rightarrow> 'a list \<Rightarrow> 'a list option" where
  "pop_all [] xs = Some xs"
| "pop_all (idx # idxs) xs = (case pop idx xs of None \<Rightarrow> None | Some ys \<Rightarrow> pop_all idxs ys)"

text \<open>
  One section (deposits or withdrawals) of the tab: the two loops, the removal after the
  iteration, the add button. The result is how the section ends, the list, the counter
  and the two totals.
\<close>

definition render_section ::
  "coll \<Rightarrow> event \<Rightarrow> line_item list \<Rightarrow> nat \<Rightarrow> outcome \<times> line_item list \<times> nat \<times> real \<times> real"
where
  "render_section c ev es0 cnt0 =
     (let (es1, cnt1) = ensure_ids es0 cnt0;
          (es2, entries_to_remove, amt, chg) = lines_loop c ev (length es1) 0 es1 ([], [], 0, 0)
      in case pop_all (rev entries_to_remove) es2 of
           None \<Rightarrow> (Raised, es2, cnt1, amt, chg)
         | Some es3 \<Rightarrow>
             if entries_to_remove \<noteq> [] then (Rerun, es3, cnt1, amt, chg)
             else if ev = ClickAdd c
               then (Rerun, es3 @ [\<lparr>amount = 0, charge_pct = 0, item_id = Some cnt1\<rparr>],
                     Suc cnt1, amt, chg)
             else (Completed, es3, cnt1, amt, chg))"

text \<open>
  The keys of the widgets that the tab has instantiated when the save button is reached.
\<close>

definition new_entry_widget_keys :: "string list" where
  "new_entry_widget_keys = [''customer_type'', ''payment_mode'', ''customer_name'', ''remarks'']"

text \<open>
  The handler of the save button. \<open>now\<close> is the clock reading of the run, formatted as
  date and time. After the commit and the success message the handler calls \<open>reset_form\<close>;
  an exception of that call is caught by \<open>except Exception\<close>, which renders an error and
  stops the run.
\<close>

definition save_entry ::
  "string \<times> string \<Rightarrow> session \<Rightarrow> real \<Rightarrow> real \<Rightarrow> real \<Rightarrow> real \<Rightarrow> store \<Rightarrow>
   outcome \<times> msg list \<times> session \<times> store"
where
  "save_entry now s b_amt b_chg k_amt k_chg db =
     (let total_charges = fadd b_chg k_chg in
      if strip (customer_name s) = [] then (Stopped, [St_error MissingField], s, db)
      else
        let (okb, mb) = validate_amount b_amt ''Total B Amount'' in
        if \<not> okb then (Stopped, mb, s, db)
        else
          let (okk, mk) = validate_amount k_amt ''Total K Amount'' in
          if \<not> okk then (Stopped, mb @ mk, s, db)
          else
            let db' = insert_entry
                  \<lparr>row_id = 0, entry_date = fst now, entry_time = snd now,
                   row_customer_type = customer_type s,
                   row_customer_name = strip (customer_name s),
                   row_payment_mode = payment_mode s,
                   b_amount = b_amt, b_charges = b_chg, k_amount = k_amt, k_charges = k_chg,
                   grand_charges = total_charges, row_remarks = strip (remarks s)\<rparr> db;
                saved = mb @ mk @ [St_success ''Entry saved successfully!'']
            in case reset_form new_entry_widget_keys s of
                 (None, s') \<Rightarrow> (Rerun, saved, s', db')
               | (Some e, s') \<Rightarrow> (Stopped, saved @ [St_error (UnexpectedError e)], s', db'))"

definition render_new_entry_tab ::
  "string \<times> string \<Rightarrow> event \<Rightarrow> session \<Rightarrow> store \<Rightarrow> outcome \<times> msg list \<times> session \<times> store"
where
  "render_new_entry_tab now ev s0 db =
     (let s1 = keyed_inputs ev s0;
          (ob, bes, bc, b_amt, b_chg) = render_section B ev (b_entries s1) (b_counter s1);
          s2 = s1\<lparr>b_entries := bes, b_counter := bc\<rparr>
      in if ob \<noteq> Completed then (ob, [], s2, db)
         else
           let (ok, kes, kc, k_amt, k_chg) = render_section K ev (k_entries s2) (k_counter s2);
               s3 = s2\<lparr>k_entries := kes, k_counter := kc\<rparr>
           in if ok \<noteq> Completed then (ok, [], s3, db)
              else if ev = ClickSave then save_entry now s3 b_amt b_chg k_amt k_chg db
              else (Completed, [], s3, db))"

text \<open>
  A session is a sequence of runs of the script: each run starts from the session state
  and the store that the run before it left. \<open>entries_of\<close> and \<open>counter_of\<close> select the list
  and the counter of a section.
\<close>

fun runs :: "((string \<times> string) \<times> event) list \<Rightarrow> session \<times> store \<Rightarrow> session \<times> store" where
  "runs [] st = st"
| "runs ((now, ev) # evs) (s, db) =
     (case render_new_entry_tab now ev s db of (out, ms, s', db') \<Rightarrow> runs evs (s', db'))"

definition entries_of :: "coll \<Rightarrow> session \<Rightarrow> line_item list" where
  "entries_of c s = (case c of B \<Rightarrow> b_entries s | K \<Rightarrow> k_entries s)"

definition counter_of :: "coll \<Rightarrow> session \<Rightarrow> nat" where
  "counter_of c s = (case c of B \<Rightarrow> b_counter s | K \<Rightarrow> k_counter s)"

subsection \<open>The All Entries tab\<close>

text \<open>
  The query behind \<open>df_all\<close>: the rows whose date lies between the two bounds (text
  comparison), by date descending, then id descending.
\<close>

definition df_all :: "string \<Rightarrow> string \<Rightarrow> store \<Rightarrow> entry list" where
  "df_all start_date end_date db =
     rev (sort_key (\<lambda>r. (entry_date r, row_id r))
       (filter (\<lambda>r. start_date \<le> entry_date r \<and> entry_date r \<le> end_date) (rows db)))"

text \<open>
  The handler of the update button, for the selected id \<open>eid\<close> and the values of the edit
  widgets. The \<open>UPDATE\<close> statement runs on a connection of its own, against the store as
  it is then.
\<close>

definition update_entry ::
  "nat \<Rightarrow> str \<Rightarrow> ctype \<Rightarrow> pmode \<Rightarrow> real \<Rightarrow> real \<Rightarrow> real \<Rightarrow> real \<Rightarrow> str \<Rightarrow> store \<Rightarrow>
   outcome \<times> msg list \<times> store"
where
  "update_entry eid en ct pm b_amt b_chg k_amt k_chg rm db =
     (if strip en = [] then (Stopped, [St_error MissingField], db)
      else
        (Rerun, [St_success ''Entry updated successfully!''],
         update_row eid
           (\<lambda>r. r\<lparr>row_customer_name := en, row_customer_type := ct, row_payment_mode := pm,
                  b_amount := b_amt, b_charges := b_chg, k_amount := k_amt, k_charges := k_chg,
                  grand_charges := fadd b_chg k_chg, row_remarks := rm\<rparr>) db))"

text \<open>
  The delete column of the tab, for the selected id \<open>eid\<close>. A button that the run does not
  render cannot report a click.
\<close>

datatype click = NoClick | ClickDelete | ClickYes | ClickNo

definition delete_flow ::
  "click \<Rightarrow> nat \<Rightarrow> session \<Rightarrow> store \<Rightarrow> outcome \<times> msg list \<times> session \<times> store"
where
  "delete_flow ck eid s db =
     (if \<not> confirm_delete s then
        (if ck = ClickDelete
           then (Rerun, [], s\<lparr>confirm_delete := True, delete_id := Some eid\<rparr>, db)
         else (Completed, [], s, db))
      else if delete_id s = Some eid then
        (if ck = ClickYes
           then (Rerun, [St_success ''Entry deleted''],
                 s\<lparr>confirm_delete := False, delete_id := None\<rparr>, delete_row eid db)
         else if ck = ClickNo
           then (Rerun, [], s\<lparr>confirm_delete := False, delete_id := None\<rparr>, db)
         else (Completed, [], s, db))
      else (Completed, [], s, db))"

subsection \<open>The Summary and Export tab\<close>

datatype date_filter = Daily string | DateRange string string

definition query_condition :: "date_filter \<Rightarrow> entry \<Rightarrow> bool" where
  "query_condition f r =
     (case f of
        Daily d \<Rightarrow> entry_date r = d
      | DateRange start_date end_date \<Rightarrow> start_date \<le> entry_date r \<and> entry_date r \<le> end_date)"

record export_row =
  Date :: string
  Time :: string
  Customer :: str
  Type :: ctype
  Mode :: pmode
  B_Amount :: real
  K_Amount :: real
  Charges :: real
  Remarks :: str

definition export_columns :: "entry \<Rightarrow> export_row" where
  "export_columns r =
     \<lparr>Date = entry_date r, Time = entry_time r, Customer = row_customer_name r,
      Type = row_customer_type r, Mode = row_payment_mode r, B_Amount = b_amount r,
      K_Amount = k_amount r, Charges = grand_charges r, Remarks = row_remarks r\<rparr>"

text \<open>
  The query behind \<open>export_df\<close>: by date descending, then time descending. Rows that agree
  on both have no order of their own in SQL; the model keeps them in insertion order.
\<close>

definition export_df :: "date_filter \<Rightarrow> store \<Rightarrow> export_row list" where
  "export_df f db =
     map export_columns
       (rev (sort_key (\<lambda>r. (entry_date r, entry_time r))
          (rev (filter (query_condition f) (rows db)))))"

section \<open>Properties\<close>

subsection \<open>Helper lemmas\<close>

text \<open>
  The rounding: \<open>exponent\<close> is the binary exponent of a positive number, and
  \<open>round_double x\<close> lies within half a unit in the last place of \<open>x\<close>.
\<close>

lemma bit_length_bounds:
  "0 < n \<Longrightarrow> 2 ^ (bit_length n - 1) \<le> n \<and> n < 2 ^ bit_length n"
proof (induction n rule: bit_length.induct)
  case (1 n)
  show ?case
  proof (cases "n div 2 = 0")
    case True
    with "1.prems" have "n = 1" by (simp add: div_eq_0_iff) 
    then show ?thesis by (simp add: bit_length.simps)
  next
    case False
    then have m: "0 < n div 2" by simp
    from "1.prems" have n0: "n \<noteq> 0" by simp
    from "1.IH" [OF n0 m]
    have lo: "2 ^ (bit_length (n div 2) - 1) \<le> n div 2" and hi: "n div 2 < 2 ^ bit_length (n div 2)"
      by simp_all
    have bl: "bit_length n = Suc (bit_length (n div 2))" using n0 by (simp add: bit_length.simps)
    have pos: "0 < bit_length (n div 2)" using m by (simp add: bit_length.simps)
    have "(2::nat) ^ bit_length (n div 2) = 2 * 2 ^ (bit_length (n div 2) - 1)"
      using pos by (cases "bit_length (n div 2)") simp_all
    with lo have "2 ^ bit_length (n div 2) \<le> 2 * (n div 2)" by simp
    also have "\<dots> \<le> n" by simp
    finally have a: "2 ^ (bit_length n - 1) \<le> n" by (simp add: bl)
    from hi have "Suc (n div 2) \<le> 2 ^ bit_length (n div 2)" by simp
    then have "2 * Suc (n div 2) \<le> 2 * 2 ^ bit_length (n div 2)" by simp
    moreover have "n < 2 * Suc (n div 2)" by presburger
    ultimately have b: "n < 2 ^ bit_length n" by (simp add: bl)
    from a b show ?thesis ..
  qed
qed

lemma round_half_even_nearest:
  "\<bar>of_int (round_half_even r) - r\<bar> \<le> 1 / 2"
proof -
  have "of_int \<lfloor>r\<rfloor> \<le> r" "r < of_int \<lfloor>r\<rfloor> + 1" by linarith+
  then show ?thesis
    by (auto simp: round_half_even_def Let_def)
qed

lemma exponent_bounds:
  assumes "0 < x"
  shows "pow2 (exponent x) \<le> x \<and> x < pow2 (exponent x + 1)"
proof (cases "1 \<le> x")
  case True
  let ?n = "nat \<lfloor>x\<rfloor>"
  from True have n: "0 < ?n" by simp
  from bit_length_bounds [OF n]
  have lo: "2 ^ (bit_length ?n - 1) \<le> ?n" and hi: "?n < 2 ^ bit_length ?n" by simp_all
  have pos: "0 < bit_length ?n" using n by (simp add: bit_length.simps)
  have fl: "real ?n \<le> x" "x < real ?n + 1" using True by linarith+
  from lo have "(2::real) ^ (bit_length ?n - 1) \<le> real ?n"
    by (metis of_nat_le_iff of_nat_numeral of_nat_power)
  with fl have a: "(2::real) ^ (bit_length ?n - 1) \<le> x" by linarith
  from hi have "Suc ?n \<le> 2 ^ bit_length ?n" by linarith
  then have "real (Suc ?n) \<le> 2 ^ bit_length ?n"
    by (metis of_nat_le_iff of_nat_numeral of_nat_power)
  with fl have b: "x < 2 ^ bit_length ?n" by ((simp only: of_nat_Suc)?, linarith?)
  have e: "exponent x = int (bit_length ?n) - 1" using True by (simp add: exponent_def)
  have "nat (int (bit_length ?n) - 1) = bit_length ?n - 1" by simp
  moreover have "nat (int (bit_length ?n) - 1 + 1) = bit_length ?n" by simp
  ultimately show ?thesis using a b pos by (simp add: e pow2_def)
next
  case False
  let ?y = "1 / x"
  let ?m = "nat (\<lceil>?y\<rceil> - 1)"
  from False assms have y: "1 < ?y" by simp
  then have c: "2 \<le> \<lceil>?y\<rceil>" by linarith
  then have m: "0 < ?m" by simp
  from bit_length_bounds [OF m]
  have lo: "2 ^ (bit_length ?m - 1) \<le> ?m" and hi: "?m < 2 ^ bit_length ?m" by simp_all
  have pos: "0 < bit_length ?m" using m by (simp add: bit_length.simps)
  have ce: "real ?m < ?y" "?y \<le> real ?m + 1" using c by linarith+
  from lo have "(2::real) ^ (bit_length ?m - 1) \<le> real ?m"
    by (metis of_nat_le_iff of_nat_numeral of_nat_power)
  with ce have a: "(2::real) ^ (bit_length ?m - 1) < ?y" by linarith
  from hi have "Suc ?m \<le> 2 ^ bit_length ?m" by linarith
  then have "real (Suc ?m) \<le> 2 ^ bit_length ?m"
    by (metis of_nat_le_iff of_nat_numeral of_nat_power)
  with ce have b: "?y \<le> 2 ^ bit_length ?m" by ((simp only: of_nat_Suc)?, linarith?)
  have e: "exponent x = - int (bit_length ?m)" using False by (simp add: exponent_def)
  from b assms have b': "1 / 2 ^ bit_length ?m \<le> x"
    by (simp add: field_simps)
  from a assms have a': "x < 1 / 2 ^ (bit_length ?m - 1)"
    by (simp add: field_simps)
  show ?thesis
  proof (cases "bit_length ?m = 1")
    case True
    with a' b' show ?thesis by (simp add: e pow2_def)
  next
    case F: False
    with pos have "1 < bit_length ?m" by simp
    then have "nat (int (bit_length ?m) - 1) = bit_length ?m - 1" by simp
    with a' b' \<open>1 < bit_length ?m\<close> show ?thesis by (simp add: e pow2_def)
  qed
qed

lemma pow2_pos: "0 < pow2 k"
  by (simp add: pow2_def)

lemma round_double_nearest:
  "\<bar>round_double x - x\<bar> \<le> pow2 (max (exponent \<bar>x\<bar>) (- 1022) - 52) / 2"
proof (cases "x = 0")
  case True
  then show ?thesis using pow2_pos [of "max (exponent \<bar>x\<bar>) (- 1022) - 52"]
    by (simp add: round_double_def)
next
  case False
  define q where "q = pow2 (max (exponent \<bar>x\<bar>) (- 1022) - 52)"
  define n where "n = round_half_even (\<bar>x\<bar> / q)"
  have q: "0 < q" unfolding q_def by (rule pow2_pos)
  have r: "round_double x = sgn x * of_int n * q"
    using False by (simp add: round_double_def q_def n_def Let_def)
  have "\<bar>round_double x - x\<bar> = \<bar>of_int n * q - \<bar>x\<bar>\<bar>"
  proof (cases "0 < x")
    case True
    then show ?thesis by (simp add: r)
  next
    case neg: False
    with False have "x < 0" by simp
    then have "round_double x - x = - (of_int n * q - \<bar>x\<bar>)" by (simp add: r)
    then show ?thesis by (simp only: abs_minus)
  qed
  also have "\<dots> = q * \<bar>of_int n - \<bar>x\<bar> / q\<bar>"
  proof -
    have "of_int n * q - \<bar>x\<bar> = q * (of_int n - \<bar>x\<bar> / q)"
      using q by (simp add: field_simps)
    then show ?thesis using q by (simp add: abs_mult)
  qed
  also have "\<dots> \<le> q * (1 / 2)"
    using round_half_even_nearest [of "\<bar>x\<bar> / q"] q
    unfolding n_def by (intro mult_left_mono) simp_all
  finally show ?thesis by (simp add: q_def)
qed


lemma validate_amount_verdict:
  "fst (validate_amount a f) \<longleftrightarrow> 0 \<le> a \<and> a \<le> MAX_AMOUNT"
  by (simp add: validate_amount_def)

lemma validate_amount_accepts:
  "0 \<le> a \<Longrightarrow> a \<le> MAX_AMOUNT \<Longrightarrow> validate_amount a f = (True, [])"
  by (simp add: validate_amount_def)

lemma lines_loop_eq:
  "lines_loop c ev n i es (w, r, a, g) =
     (w @ map (\<lambda>(j, e). bind_inputs c ev j e) (enumerate i es),
      r @ filter (\<lambda>j. 1 < n \<and> remove_clicked c ev j) [i..<i + length es],
      foldl fadd a (map amount (map (\<lambda>(j, e). bind_inputs c ev j e) (enumerate i es))),
      foldl fadd g
        (map (\<lambda>e. fdiv (fmul (amount e) (charge_pct e)) 100)
          (map (\<lambda>(j, e). bind_inputs c ev j e) (enumerate i es))))"
proof (induction es arbitrary: i w r a g)
  case Nil
  show ?case by simp
next
  case (Cons e es)
  have upt: "[i..<Suc (i + length es)] = i # [Suc i..<Suc (i + length es)]"
    by (rule upt_conv_Cons) simp
  show ?case
    by (simp add: Cons.IH upt Let_def del: upt_Suc)
qed

lemma render_section_no_click:
  assumes "\<forall>i. ev \<noteq> ClickRemove c i" "ev \<noteq> ClickAdd c"
  shows "fst (render_section c ev es cnt) = Completed"
  using assms
  by (simp add: render_section_def lines_loop_eq remove_clicked_def Let_def split: prod.splits)

lemma tab_save_name:
  "render_new_entry_tab now ClickSave s db =
     (out, ms, s', db') \<Longrightarrow> strip (customer_name s) = [] \<Longrightarrow> db' = db \<and> out = Stopped \<and> ms = [St_error MissingField]"
  using render_section_no_click[of ClickSave B "b_entries s" "b_counter s"]
 render_section_no_click[of ClickSave K "k_entries s" "k_counter s"]
  by (auto simp: render_new_entry_tab_def keyed_inputs_def save_entry_def Let_def split: prod.splits if_splits)

lemma update_row_absent:
  "eid \<notin> row_id ` set (rows db) \<Longrightarrow> update_row eid f db = db"
proof -
  assume a: "eid \<notin> row_id ` set (rows db)"
  have "map (\<lambda>r. if row_id r = eid then f r else r) (rows db) = rows db"
    using a by (intro map_idI) auto
  then show ?thesis by (simp add: update_row_def)
qed

lemma length_filter_distinct_key:
  "distinct (map f xs) \<Longrightarrow> k \<in> f ` set xs \<Longrightarrow> Suc (length (filter (\<lambda>r. f r \<noteq> k) xs)) = length xs"
proof (induction xs)
  case Nil
  then show ?case by simp
next
  case (Cons x xs)
  show ?case
  proof (cases "f x = k")
    case True
    with Cons.prems have "k \<notin> f ` set xs" by auto
    then have "filter (\<lambda>r. f r \<noteq> k) xs = xs" by (auto simp: filter_id_conv)
    with True show ?thesis by simp
  next
    case False
    with Cons show ?thesis by auto
  qed
qed

lemma insort_key_order_cong:
  "\<forall>y\<in>set ys. (f x \<le> f y) = (g x \<le> g y) \<Longrightarrow> insort_key f x ys = insort_key g x ys"
  by (induction ys) auto

lemma sort_key_order_cong:
  "\<forall>x\<in>set xs. \<forall>y\<in>set xs. (f x \<le> f y) = (g x \<le> g y) \<Longrightarrow> sort_key f xs = sort_key g xs"
proof (induction xs)
  case Nil
  show ?case by simp
next
  case (Cons x xs)
  then have IH: "sort_key f xs = sort_key g xs" by simp
  have "insort_key f x (sort_key g xs) = insort_key g x (sort_key g xs)"
    using Cons.prems by (intro insort_key_order_cong) simp
  with IH show ?case by simp
qed

lemma sort_key_rev:
  assumes "inj_on f (set xs)"
  shows "sort_key f (rev xs) = sort_key f xs"
proof (rule properties_for_sort_key)
  show "mset (sort_key f xs) = mset (rev xs)" by simp
  show "sorted (map f (sort_key f xs))" by simp
  fix k assume "k \<in> set (sort_key f xs)"
  then have k: "k \<in> set xs" by simp
  have "filter (\<lambda>x. f k = f x) ys = filter (\<lambda>x. k = x) ys" if "set ys = set xs" for ys
    using that assms k by (intro filter_cong) (auto simp: inj_on_def)
  then have "filter (\<lambda>x. f k = f x) (sort_key f xs) = filter (\<lambda>x. k = x) (sort_key f xs)"
    and "filter (\<lambda>x. f k = f x) (rev xs) = filter (\<lambda>x. k = x) (rev xs)"
    by simp_all
  moreover have "filter (\<lambda>x. k = x) (sort_key f xs) = filter (\<lambda>x. k = x) (rev xs)"
    by (simp flip: replicate_count_mset_eq_filter_eq)
  ultimately show "filter (\<lambda>x. f k = f x) (sort_key f xs) = filter (\<lambda>x. f k = f x) (rev xs)"
    by simp
qed

lemma query_condition_range:
  "query_condition (DateRange start_date end_date)
     = (\<lambda>r. start_date \<le> entry_date r \<and> entry_date r \<le> end_date)"
  by (rule ext) (simp add: query_condition_def)

lemma same_id_same_row:
  "distinct (map row_id xs) \<Longrightarrow> r1 \<in> set xs \<Longrightarrow> r2 \<in> set xs \<Longrightarrow> row_id r1 = row_id r2 \<Longrightarrow> r1 = r2"
  by (meson distinct_map inj_onD)

lemma filter_index_eq:
  "filter (\<lambda>j. i = j) [0..<n] = (if i < n then [i] else [])"
  by (induction n) auto

lemma removal_indices:
  "filter (\<lambda>j. Suc 0 < n \<and> remove_clicked c ev j) [0..<n] =
     (case ev of ClickRemove c' i \<Rightarrow> if c' = c \<and> Suc 0 < n \<and> i < n then [i] else [] | _ \<Rightarrow> [])"
proof (cases ev)
  case (ClickRemove c' i)
  show ?thesis
  proof (cases "Suc 0 < n \<and> c' = c")
    case True
    then have "filter (\<lambda>j. Suc 0 < n \<and> remove_clicked c ev j) [0..<n] = filter (\<lambda>j. i = j) [0..<n]"
      by (intro filter_cong) (auto simp: remove_clicked_def ClickRemove)
    with True show ?thesis by (simp add: filter_index_eq ClickRemove)
  next
    case False
    then have "filter (\<lambda>j. Suc 0 < n \<and> remove_clicked c ev j) [0..<n] = []"
      by (auto simp: remove_clicked_def ClickRemove)
    with False show ?thesis by (auto simp: ClickRemove)
  qed
qed (simp_all add: remove_clicked_def)

lemma ensure_ids_length: "length (fst (ensure_ids es cnt)) = length es"
proof (induction es arbitrary: cnt)
  case Nil
  show ?case by simp
next
  case (Cons e es)
  show ?case
    using Cons.IH [of cnt] Cons.IH [of "Suc cnt"]
    by (auto split: option.splits prod.splits)
qed

lemma ensure_ids_counter: "cnt \<le> snd (ensure_ids es cnt)"
proof (induction es arbitrary: cnt)
  case Nil
  show ?case by simp
next
  case (Cons e es)
  show ?case
    using Cons.IH [of cnt] Cons.IH [of "Suc cnt"]
    by (auto split: option.splits prod.splits)
qed

lemma ensure_ids_ids:
  "e \<in> set (fst (ensure_ids es cnt)) \<Longrightarrow>
   \<exists>i. item_id e = Some i \<and> (Some i \<in> item_id ` set es \<or> (cnt \<le> i \<and> i < snd (ensure_ids es cnt)))"
proof (induction es arbitrary: cnt)
  case Nil
  then show ?case by simp
next
  case (Cons x xs)
  show ?case
  proof (cases "item_id x")
    case None
    obtain es' cnt' where r: "ensure_ids xs (Suc cnt) = (es', cnt')" by (cases "ensure_ids xs (Suc cnt)")
    have le: "Suc cnt \<le> cnt'" using ensure_ids_counter [of "Suc cnt" xs] r by simp
    from Cons.prems None r have "e = x\<lparr>item_id := Some cnt\<rparr> \<or> e \<in> set es'" by auto
    then show ?thesis
    proof
      assume "e = x\<lparr>item_id := Some cnt\<rparr>"
      with None r le show ?thesis by auto
    next
      assume "e \<in> set es'"
      with Cons.IH [of "Suc cnt"] r
      obtain i where "item_id e = Some i" "Some i \<in> item_id ` set xs \<or> (Suc cnt \<le> i \<and> i < cnt')"
        by auto
      with None r show ?thesis by auto
    qed
  next
    case (Some a)
    obtain es' cnt' where r: "ensure_ids xs cnt = (es', cnt')" by (cases "ensure_ids xs cnt")
    from Cons.prems Some r have "e = x \<or> e \<in> set es'" by auto
    then show ?thesis
    proof
      assume "e = x"
      with Some show ?thesis by auto
    next
      assume "e \<in> set es'"
      with Cons.IH [of cnt] r
      obtain i where "item_id e = Some i" "Some i \<in> item_id ` set xs \<or> (cnt \<le> i \<and> i < cnt')"
        by auto
      with Some r show ?thesis by auto
    qed
  qed
qed

lemma ensure_ids_id:
  "\<forall>e\<in>set es. item_id e \<noteq> None \<Longrightarrow> ensure_ids es cnt = (es, cnt)"
  by (induction es arbitrary: cnt) (auto split: option.splits)

lemma item_id_bind_inputs [simp]: "item_id (bind_inputs c ev i e) = item_id e"
  by (simp add: bind_inputs_def Let_def)

lemma bind_inputs_id:
  "(\<forall>j v. ev \<noteq> SetAmount c j v) \<Longrightarrow> (\<forall>j v. ev \<noteq> SetChargePct c j v) \<Longrightarrow> bind_inputs c ev i e = e"
  by (cases ev) (auto simp: bind_inputs_def amount_input_def charge_input_def Let_def)

text \<open>The section, with the loop and the removal resolved.\<close>

lemma render_section_eq:
  "render_section c ev es cnt =
     (let es1 = fst (ensure_ids es cnt); cnt1 = snd (ensure_ids es cnt);
          es2 = map (\<lambda>(j, e). bind_inputs c ev j e) (enumerate 0 es1);
          amt = foldl fadd 0 (map amount es2);
          chg = foldl fadd 0 (map (\<lambda>e. fdiv (fmul (amount e) (charge_pct e)) 100) es2)
      in case ev of
           ClickRemove c' i \<Rightarrow>
             if c' = c \<and> 1 < length es \<and> i < length es
               then (Rerun, take i es2 @ drop (Suc i) es2, cnt1, amt, chg)
             else (Completed, es2, cnt1, amt, chg)
         | ClickAdd c' \<Rightarrow>
             if c' = c
               then (Rerun, es2 @ [\<lparr>amount = 0, charge_pct = 0, item_id = Some cnt1\<rparr>],
                     Suc cnt1, amt, chg)
             else (Completed, es2, cnt1, amt, chg)
         | _ \<Rightarrow> (Completed, es2, cnt1, amt, chg))"
proof -
  have len: "length (fst (ensure_ids es cnt)) = length es" by (rule ensure_ids_length)
  show ?thesis
    using len
    by (cases ev)
       (auto simp: render_section_def lines_loop_eq removal_indices pop_def Let_def
             split: prod.splits)
qed

lemma item_ids_bound:
  "map item_id (map (\<lambda>(j, e). bind_inputs c ev j e) (enumerate n es)) = map item_id es"
  by (induction es arbitrary: n) simp_all

lemma set_item_ids_bound:
  "item_id ` set (map (\<lambda>(j, e). bind_inputs c ev j e) (enumerate n es)) = item_id ` set es"
  using item_ids_bound [of c ev n es] by (metis set_map)

lemma section_not_raised:
  "fst (render_section c ev es cnt) \<noteq> Raised"
  by (cases ev) (simp_all add: render_section_eq Let_def)

lemma enumerate_Nil_iff: "enumerate n xs = [] \<longleftrightarrow> xs = []"
  by (cases xs) simp_all

lemma section_nonempty:
  assumes "render_section c ev es cnt = (out, es', cnt', amt, chg)" and "es \<noteq> []"
  shows "es' \<noteq> []"
proof -
  have len: "length (fst (ensure_ids es cnt)) = length es" by (rule ensure_ids_length)
  with assms(2) have ne: "fst (ensure_ids es cnt) \<noteq> []" by auto
  show ?thesis
    using assms(1) len ne
    by (cases ev) (auto simp: render_section_eq enumerate_Nil_iff Let_def split: if_splits)
qed

lemma section_counter:
  assumes "render_section c ev es cnt = (out, es', cnt', amt, chg)"
  shows "cnt \<le> cnt'"
  using assms ensure_ids_counter [of cnt es]
  by (cases ev) (auto simp: render_section_eq Let_def split: if_splits)

lemma section_ids:
  assumes r: "render_section c ev es cnt = (out, es', cnt', amt, chg)"
    and i: "Some i \<in> item_id ` set es'"
  shows "Some i \<in> item_id ` set es \<or> (cnt \<le> i \<and> i < cnt')"
proof -
  let ?es1 = "fst (ensure_ids es cnt)" and ?cnt1 = "snd (ensure_ids es cnt)"
  let ?es2 = "map (\<lambda>(j, e). bind_inputs c ev j e) (enumerate 0 ?es1)"
  have cnt1: "cnt \<le> ?cnt1" by (rule ensure_ids_counter)
  have cnt': "?cnt1 \<le> cnt'"
    using r by (cases ev) (auto simp: render_section_eq Let_def split: if_splits)
  have sub: "set es' \<subseteq> set ?es2 \<or>
      (es' = ?es2 @ [\<lparr>amount = 0, charge_pct = 0, item_id = Some ?cnt1\<rparr>] \<and> cnt' = Suc ?cnt1)"
  proof (cases ev)
    case (ClickRemove c' j)
    have "set (take j ?es2 @ drop (Suc j) ?es2) \<subseteq> set ?es2"
      using set_take_subset [of j ?es2] set_drop_subset [of "Suc j" ?es2] by auto
    with r ClickRemove show ?thesis
      by (auto simp: render_section_eq Let_def split: if_splits)
  next
    case (ClickAdd c')
    with r show ?thesis by (auto simp: render_section_eq Let_def split: if_splits)
  qed (use r in \<open>auto simp: render_section_eq Let_def\<close>)
  from i obtain e where e: "e \<in> set es'" "item_id e = Some i" by force
  have old: "Some i \<in> item_id ` set es \<or> (cnt \<le> i \<and> i < cnt')" if "e \<in> set ?es2"
  proof -
    from that e(2) have "Some i \<in> item_id ` set ?es2" by force
    then have "Some i \<in> item_id ` set ?es1" by (simp only: set_item_ids_bound)
    then obtain e1 where e1: "e1 \<in> set ?es1" "item_id e1 = Some i" by force
    from ensure_ids_ids [OF e1(1)] e1(2)
    have "Some i \<in> item_id ` set es \<or> (cnt \<le> i \<and> i < ?cnt1)" by auto
    with cnt' show ?thesis by auto
  qed
  from sub show ?thesis
  proof
    assume "set es' \<subseteq> set ?es2"
    with e(1) old show ?thesis by auto
  next
    assume a: "es' = ?es2 @ [\<lparr>amount = 0, charge_pct = 0, item_id = Some ?cnt1\<rparr>] \<and> cnt' = Suc ?cnt1"
    with e(1) have "e \<in> set ?es2 \<or> e = \<lparr>amount = 0, charge_pct = 0, item_id = Some ?cnt1\<rparr>" by auto
    then show ?thesis
    proof
      assume "e \<in> set ?es2"
      then show ?thesis by (rule old)
    next
      assume "e = \<lparr>amount = 0, charge_pct = 0, item_id = Some ?cnt1\<rparr>"
      with e(2) have "i = ?cnt1" by simp
      with a cnt1 show ?thesis by simp
    qed
  qed
qed

text \<open>What a run of the tab does to the list and the counter of a section.\<close>

lemma reset_form_raises:
  "reset_form new_entry_widget_keys s = (Some (StreamlitAPIException ''customer_name''), s)"
  by (simp add: reset_form_def new_entry_widget_keys_def)

lemma tab_section:
  assumes "render_new_entry_tab now ev s db = (out, ms, s', db')"
  shows "(entries_of c s' = entries_of c s \<and> counter_of c s' = counter_of c s)
       \<or> (\<exists>out' amt chg. render_section c ev (entries_of c s) (counter_of c s)
             = (out', entries_of c s', counter_of c s', amt, chg))"
proof -
  have k: "b_entries (keyed_inputs ev s) = b_entries s" "k_entries (keyed_inputs ev s) = k_entries s"
    "b_counter (keyed_inputs ev s) = b_counter s" "k_counter (keyed_inputs ev s) = k_counter s"
    by (cases ev; simp add: keyed_inputs_def)+
  obtain ob bes bc ba bg where b: "render_section B ev (b_entries s) (b_counter s) = (ob, bes, bc, ba, bg)"
    by (cases "render_section B ev (b_entries s) (b_counter s)") auto
  obtain ok kes kc ka kg where kk: "render_section K ev (k_entries s) (k_counter s) = (ok, kes, kc, ka, kg)"
    by (cases "render_section K ev (k_entries s) (k_counter s)") auto
  show ?thesis
    using assms b kk
    by (cases c)
       (auto simp: render_new_entry_tab_def k Let_def entries_of_def counter_of_def
             save_entry_def reset_form_raises
             split: if_splits prod.splits)
qed

lemma bound_lines_id:
  assumes "\<forall>j v. ev \<noteq> SetAmount c j v" and "\<forall>j v. ev \<noteq> SetChargePct c j v"
  shows "map (\<lambda>(j, e). bind_inputs c ev j e) (enumerate n es) = es"
  using assms by (induction es arbitrary: n) (simp_all add: bind_inputs_id)

lemma tab_section_exact:
  assumes run: "render_new_entry_tab now ev s db = (out, ms, s', db')"
    and bc: "c = K \<longrightarrow> fst (render_section B ev (b_entries s) (b_counter s)) = Completed"
  shows "\<exists>out' amt chg. render_section c ev (entries_of c s) (counter_of c s)
             = (out', entries_of c s', counter_of c s', amt, chg)"
proof -
  have k: "b_entries (keyed_inputs ev s) = b_entries s" "k_entries (keyed_inputs ev s) = k_entries s"
    "b_counter (keyed_inputs ev s) = b_counter s" "k_counter (keyed_inputs ev s) = k_counter s"
    by (cases ev; simp add: keyed_inputs_def)+
  obtain ob bes bc ba bg where b: "render_section B ev (b_entries s) (b_counter s) = (ob, bes, bc, ba, bg)"
    by (cases "render_section B ev (b_entries s) (b_counter s)") auto
  obtain ok kes kc ka kg where kk: "render_section K ev (k_entries s) (k_counter s) = (ok, kes, kc, ka, kg)"
    by (cases "render_section K ev (k_entries s) (k_counter s)") auto
  show ?thesis
    using run bc b kk
    by (cases c)
       (auto simp: render_new_entry_tab_def k Let_def entries_of_def counter_of_def
             save_entry_def reset_form_raises
             split: if_splits prod.splits)
qed

lemma other_section_completes:
  "ev = ClickAdd c \<or> ev = ClickRemove c i \<Longrightarrow>
   c = K \<longrightarrow> fst (render_section B ev es cnt) = Completed"
  by (auto simp: render_section_no_click)

lemma tab_nonempty:
  assumes run: "render_new_entry_tab now ev s db = (out, ms, s', db')" and ne: "entries_of c s \<noteq> []"
  shows "entries_of c s' \<noteq> []"
proof -
  from tab_section [OF run, of c]
  consider (same) "entries_of c s' = entries_of c s"
    | (sec) out' amt chg where "render_section c ev (entries_of c s) (counter_of c s)
             = (out', entries_of c s', counter_of c s', amt, chg)"
    by blast
  then show ?thesis
  proof cases
    case same
    with ne show ?thesis by simp
  next
    case sec
    from section_nonempty [OF sec ne] show ?thesis .
  qed
qed

lemma runs_nonempty:
  "entries_of c (fst st) \<noteq> [] \<Longrightarrow> entries_of c (fst (runs evs st)) \<noteq> []"
proof (induction evs arbitrary: st)
  case Nil
  then show ?case by simp
next
  case (Cons x evs)
  obtain now ev where x: "x = (now, ev)" by (cases x)
  obtain s db where st: "st = (s, db)" by (cases st)
  obtain out ms s' db' where r: "render_new_entry_tab now ev s db = (out, ms, s', db')"
    by (cases "render_new_entry_tab now ev s db") auto
  from Cons.prems st have "entries_of c s \<noteq> []" by simp
  with r have "entries_of c s' \<noteq> []" by (rule tab_nonempty)
  then have "entries_of c (fst (runs evs (s', db'))) \<noteq> []" using Cons.IH [of "(s', db')"] by simp
  with x st r show ?case by simp
qed

lemma remove_sole_line:
  assumes len: "length (entries_of c s) = 1"
    and ids: "\<forall>e\<in>set (entries_of c s). item_id e \<noteq> None"
  shows "entries_of c (fst (snd (snd (render_new_entry_tab now (ClickRemove c i) s db))))
           = entries_of c s"
proof -
  obtain out ms s' db' where r: "render_new_entry_tab now (ClickRemove c i) s db = (out, ms, s', db')"
    by (cases "render_new_entry_tab now (ClickRemove c i) s db") auto
  from tab_section_exact [OF r other_section_completes]
  obtain out' amt chg where
    sec: "render_section c (ClickRemove c i) (entries_of c s) (counter_of c s)
             = (out', entries_of c s', counter_of c s', amt, chg)"
    by auto
  from sec len ids have "entries_of c s' = entries_of c s"
    by (simp add: render_section_eq ensure_ids_id bound_lines_id Let_def)
  with r show ?thesis by simp
qed

lemma add_line:
  assumes run: "render_new_entry_tab now (ClickAdd c) s db = (out, ms, s', db')"
    and ids: "\<forall>e\<in>set (entries_of c s). item_id e \<noteq> None"
  shows "entries_of c s' = entries_of c s @ [\<lparr>amount = 0, charge_pct = 0, item_id = Some (counter_of c s)\<rparr>]
    \<and> counter_of c s' = Suc (counter_of c s)"
proof -
  from tab_section_exact [OF run other_section_completes]
  obtain out' amt chg where
    sec: "render_section c (ClickAdd c) (entries_of c s) (counter_of c s)
             = (out', entries_of c s', counter_of c s', amt, chg)"
    by auto
  from sec ids show ?thesis
    by (simp add: render_section_eq ensure_ids_id bound_lines_id Let_def)
qed

lemma remove_line:
  assumes run: "render_new_entry_tab now (ClickRemove c i) s db = (out, ms, s', db')"
    and ids: "\<forall>e\<in>set (entries_of c s). item_id e \<noteq> None"
    and i: "i < length (entries_of c s)" "1 < length (entries_of c s)"
  shows "entries_of c s' = take i (entries_of c s) @ drop (Suc i) (entries_of c s)
    \<and> counter_of c s' = counter_of c s"
proof -
  from tab_section_exact [OF run other_section_completes]
  obtain out' amt chg where
    sec: "render_section c (ClickRemove c i) (entries_of c s) (counter_of c s)
             = (out', entries_of c s', counter_of c s', amt, chg)"
    by auto
  from sec ids i show ?thesis
    by (simp add: render_section_eq ensure_ids_id bound_lines_id Let_def)
qed

lemma add_then_remove:
  assumes ne: "entries_of c s \<noteq> []" and ids: "\<forall>e\<in>set (entries_of c s). item_id e \<noteq> None"
  shows "entries_of c (fst (runs [(t1, ClickAdd c), (t2, ClickRemove c (length (entries_of c s)))] (s, db)))
           = entries_of c s
    \<and> counter_of c (fst (runs [(t1, ClickAdd c), (t2, ClickRemove c (length (entries_of c s)))] (s, db)))
           = Suc (counter_of c s)"
proof -
  let ?n = "length (entries_of c s)"
  obtain o1 m1 s1 db1 where r1: "render_new_entry_tab t1 (ClickAdd c) s db = (o1, m1, s1, db1)"
    by (cases "render_new_entry_tab t1 (ClickAdd c) s db") auto
  obtain o2 m2 s2 db2 where r2: "render_new_entry_tab t2 (ClickRemove c ?n) s1 db1 = (o2, m2, s2, db2)"
    by (cases "render_new_entry_tab t2 (ClickRemove c ?n) s1 db1") auto
  from add_line [OF r1 ids]
  have a: "entries_of c s1 = entries_of c s @ [\<lparr>amount = 0, charge_pct = 0, item_id = Some (counter_of c s)\<rparr>]"
    and ac: "counter_of c s1 = Suc (counter_of c s)" by auto
  from a ids have ids1: "\<forall>e\<in>set (entries_of c s1). item_id e \<noteq> None" by auto
  from a ne have l1: "?n < length (entries_of c s1)" "1 < length (entries_of c s1)"
    by (auto simp: Suc_lessI)
  from remove_line [OF r2 ids1 l1] a ac
  have "entries_of c s2 = entries_of c s \<and> counter_of c s2 = Suc (counter_of c s)" by simp
  with r1 r2 show ?thesis by simp
qed

lemma step_fresh:
  assumes run: "render_new_entry_tab now ev s db = (out, ms, s', db')"
  shows "counter_of c s \<le> counter_of c s'
    \<and> (\<forall>i. Some i \<in> item_id ` set (entries_of c s') \<longrightarrow>
          Some i \<in> item_id ` set (entries_of c s) \<or> (counter_of c s \<le> i \<and> i < counter_of c s'))"
proof -
  from tab_section [OF run, of c]
  consider (same) "entries_of c s' = entries_of c s" "counter_of c s' = counter_of c s"
    | (sec) out' amt chg where "render_section c ev (entries_of c s) (counter_of c s)
             = (out', entries_of c s', counter_of c s', amt, chg)"
    by blast
  then show ?thesis
  proof cases
    case same
    then show ?thesis by simp
  next
    case sec
    have "counter_of c s \<le> counter_of c s'" by (rule section_counter [OF sec])
    moreover have "Some i \<in> item_id ` set (entries_of c s) \<or> (counter_of c s \<le> i \<and> i < counter_of c s')"
      if "Some i \<in> item_id ` set (entries_of c s')" for i
      by (rule section_ids [OF sec that])
    ultimately show ?thesis by blast
  qed
qed

lemma runs_fresh:
  "counter_of c (fst st) \<le> counter_of c (fst (runs evs st))
   \<and> (\<forall>i. Some i \<in> item_id ` set (entries_of c (fst (runs evs st))) \<longrightarrow>
         Some i \<in> item_id ` set (entries_of c (fst st))
         \<or> (counter_of c (fst st) \<le> i \<and> i < counter_of c (fst (runs evs st))))"
proof (induction evs arbitrary: st)
  case Nil
  show ?case by simp
next
  case (Cons x evs)
  obtain now ev where x: "x = (now, ev)" by (cases x)
  obtain s db where st: "st = (s, db)" by (cases st)
  obtain out ms s' db' where r: "render_new_entry_tab now ev s db = (out, ms, s', db')"
    by (cases "render_new_entry_tab now ev s db") auto
  let ?f = "fst (runs evs (s', db'))"
  from step_fresh [OF r, of c]
  have c1: "counter_of c s \<le> counter_of c s'"
    and i1: "\<And>i. Some i \<in> item_id ` set (entries_of c s') \<Longrightarrow>
          Some i \<in> item_id ` set (entries_of c s) \<or> (counter_of c s \<le> i \<and> i < counter_of c s')"
    by blast+
  from Cons.IH [of "(s', db')"]
  have c2: "counter_of c s' \<le> counter_of c ?f"
    and i2: "\<And>i. Some i \<in> item_id ` set (entries_of c ?f) \<Longrightarrow>
          Some i \<in> item_id ` set (entries_of c s') \<or> (counter_of c s' \<le> i \<and> i < counter_of c ?f)"
    by simp_all
  have eq: "runs (x # evs) (s, db) = runs evs (s', db')" using x r by simp
  have "counter_of c s \<le> counter_of c ?f" using c1 c2 by simp
  moreover have "Some i \<in> item_id ` set (entries_of c s) \<or> (counter_of c s \<le> i \<and> i < counter_of c ?f)"
    if "Some i \<in> item_id ` set (entries_of c ?f)" for i
  proof -
    from i2 [OF that] show ?thesis
    proof
      assume "Some i \<in> item_id ` set (entries_of c s')"
      from i1 [OF this] c2 show ?thesis by auto
    next
      assume "counter_of c s' \<le> i \<and> i < counter_of c ?f"
      with c1 show ?thesis by auto
    qed
  qed
  ultimately show ?case unfolding st eq by simp
qed

lemmas float_defs = fadd_def fmul_def fdiv_def round_double_def round_half_even_def exponent_def
  pow2_def bit_length.simps

text \<open>
  Values of Python: \<open>0.1 + 0.2\<close>, \<open>0.1 + 0.2 + 0.3\<close>, \<open>21.0 / 100\<close>, \<open>0.1 * 3\<close>,
  \<open>1e6 + 1e-11\<close>, \<open>1.0 / 3\<close>, \<open>2.0**53 + 1\<close>, \<open>2.0**53 + 3\<close>, \<open>999999.99 * 9.9\<close> and
  its hundredth, each operand and result written as the fraction it is.
\<close>

lemma float_examples:
  "fadd (3602879701896397 / 36028797018963968) (3602879701896397 / 18014398509481984) = (1351079888211149 / 4503599627370496) \<and>
   fadd (1351079888211149 / 4503599627370496) (5404319552844595 / 18014398509481984) = (1351079888211149 / 2251799813685248) \<and>
   fdiv 21 100 = (7566047373982433 / 36028797018963968) \<and>
   fmul (3602879701896397 / 36028797018963968) 3 = (1351079888211149 / 4503599627370496) \<and>
   fadd 1000000 (6189700196426901 / 618970019642690137449562112) = 1000000 \<and>
   fdiv 1 3 = (6004799503160661 / 18014398509481984) \<and>
   fadd 9007199254740992 1 = 9007199254740992 \<and>
   fadd 9007199254740992 3 = 9007199254740996 \<and>
   fmul (4294967253050327 / 4294967296) (5573204538870989 / 562949953421312) = (1328755493912445 / 134217728) \<and>
   fdiv (1328755493912445 / 134217728) 100 = (3401614064415859 / 34359738368)"
  by (simp add: float_defs Let_def)

lemmas run_defs = render_new_entry_tab_def render_section_def keyed_inputs_def bind_inputs_def
  amount_input_def charge_input_def remove_clicked_def pop_def save_entry_def reset_form_def
  new_entry_widget_keys_def defaults_def validate_amount_def MAX_AMOUNT_def insert_entry_def
  strip_def isspace_def entries_of_def counter_of_def float_defs Let_def

subsection \<open>Claims\<close>

text \<open>
  C1, as stated, fails: the charge of a line is computed in binary64 arithmetic. For the
  amount 3 and the percentage 7 the product 21 is exact, and the quotient by 100 is the
  binary64 number nearest to 21/100, which is not 21/100.
\<close>

theorem charge_is_rounded:
  "render_section B NoEvent [\<lparr>amount = 3, charge_pct = 7, item_id = Some 1\<rparr>] 2
     = (Completed, [\<lparr>amount = 3, charge_pct = 7, item_id = Some 1\<rparr>], 2, 3,
        7566047373982433 / 36028797018963968)
   \<and> (7566047373982433 / 36028797018963968 :: real) \<noteq> 3 * 7 / 100"
  by (simp add: render_section_def bind_inputs_def amount_input_def charge_input_def
      remove_clicked_def pop_def float_defs Let_def)

text \<open>
  C1, amended. The charge of a line with amount \<open>a\<close> and percentage \<open>p\<close> is \<open>a * p / 100\<close>
  in binary64 arithmetic, the product rounded and then the quotient rounded. The totals
  that a section of the New Entry tab hands on are the binary64 sums, accumulated from 0
  in the order of the lines, of the amounts of its lines and of the charges of its lines:
  a sum of the charges line by line, not a charge computed from the total amount. The
  bounds on \<open>a\<close> and \<open>p\<close> are not needed.
\<close>

theorem section_totals_are_float_sums:
  assumes "render_section c ev es cnt = (Completed, es', cnt', amt, chg)"
  shows "amt = foldl fadd 0 (map amount es')
    \<and> chg = foldl fadd 0 (map (\<lambda>e. fdiv (fmul (amount e) (charge_pct e)) 100) es')"
  using assms
  by (auto simp: render_section_eq Let_def split: event.splits if_splits)

theorem section_totals_are_float_sums_witness:
  "render_section B NoEvent
     [\<lparr>amount = 100, charge_pct = 2, item_id = Some 1\<rparr>,
      \<lparr>amount = 200, charge_pct = 1, item_id = Some 2\<rparr>] 3
   = (Completed,
      [\<lparr>amount = 100, charge_pct = 2, item_id = Some 1\<rparr>,
       \<lparr>amount = 200, charge_pct = 1, item_id = Some 2\<rparr>], 3, 300, 4)
   \<and> (300 :: real) = foldl fadd 0 (map amount
        [\<lparr>amount = 100, charge_pct = 2, item_id = Some 1\<rparr>,
         \<lparr>amount = 200, charge_pct = 1, item_id = Some (2::nat)\<rparr>])
   \<and> (4 :: real) = foldl fadd 0 (map (\<lambda>e. fdiv (fmul (amount e) (charge_pct e)) 100)
        [\<lparr>amount = 100, charge_pct = 2, item_id = Some 1\<rparr>,
         \<lparr>amount = 200, charge_pct = 1, item_id = Some (2::nat)\<rparr>])
   \<and> (4 :: real) \<noteq> fdiv (fmul 300 (fdiv (fadd 2 1) 2)) 100"
proof -
  have run: "render_section B NoEvent
     [\<lparr>amount = 100, charge_pct = 2, item_id = Some 1\<rparr>,
      \<lparr>amount = 200, charge_pct = 1, item_id = Some 2\<rparr>] 3
   = (Completed,
      [\<lparr>amount = 100, charge_pct = 2, item_id = Some 1\<rparr>,
       \<lparr>amount = 200, charge_pct = 1, item_id = Some 2\<rparr>], 3, 300, 4)"
    by (simp add: render_section_def bind_inputs_def amount_input_def charge_input_def
        remove_clicked_def pop_def float_defs Let_def)
  have avg: "(4 :: real) \<noteq> fdiv (fmul 300 (fdiv (fadd 2 1) 2)) 100"
    by (simp add: float_defs Let_def)
  from section_totals_are_float_sums [OF run] run avg show ?thesis by simp
qed

text \<open>
  C3. A save whose customer name is empty after \<open>strip\<close> stops with the message
  "Customer name is required" (\<open>MissingField\<close>) and leaves the store as it was. This holds
  for the handler of the save button and for the run of the tab that the click starts.
\<close>

theorem save_blank_name_rejected:
  assumes "strip (customer_name s) = []"
  shows "save_entry now s b_amt b_chg k_amt k_chg db = (Stopped, [St_error MissingField], s, db)
    \<and> snd (snd (snd (render_new_entry_tab now ClickSave s db))) = db"
proof
  show "save_entry now s b_amt b_chg k_amt k_chg db = (Stopped, [St_error MissingField], s, db)"
    using assms by (simp add: save_entry_def)
  show "snd (snd (snd (render_new_entry_tab now ClickSave s db))) = db"
    using assms tab_save_name[of now s db] by (cases "render_new_entry_tab now ClickSave s db") auto
qed

theorem save_blank_name_rejected_witness:
  "strip (customer_name (defaults\<lparr>customer_name := [32, 160, 9, 8195, 133]\<rparr>)) = []
   \<and> save_entry (''2024-01-01'', ''10:00:00'') (defaults\<lparr>customer_name := [32, 160, 9, 8195, 133]\<rparr>) 500 10 0 0
       \<lparr>rows = [], seq = 0\<rparr>
     = (Stopped, [St_error MissingField], defaults\<lparr>customer_name := [32, 160, 9, 8195, 133]\<rparr>,
        \<lparr>rows = [], seq = 0\<rparr>)
   \<and> strip (customer_name defaults) = []
   \<and> save_entry (''2024-01-01'', ''10:00:00'') defaults 500 10 0 0 \<lparr>rows = [], seq = 0\<rparr>
     = (Stopped, [St_error MissingField], defaults, \<lparr>rows = [], seq = 0\<rparr>)"
proof -
  have blank: "strip (customer_name (defaults\<lparr>customer_name := [32, 160, 9, 8195, 133]\<rparr>)) = []"
    by (simp add: strip_def isspace_def)
  have empty: "strip (customer_name defaults) = []"
    by (simp add: strip_def defaults_def)
  from save_blank_name_rejected [OF blank] save_blank_name_rejected [OF empty] blank empty
  show ?thesis by blast
qed

text \<open>
  C4. \<open>validate_amount\<close> accepts exactly the amounts from 0 to 1,000,000, both included.
  With a customer name that is not empty after \<open>strip\<close>, a save whose B total is above
  1,000,000 or below 0 stops with \<open>OutOfRange\<close> and writes nothing, and so does one whose
  K total is out of range once the B total has passed. A save whose totals are within the
  bounds, 1,000,000 included, is written: the row is appended to the store and the
  success message rendered. The handler then calls \<open>reset_form\<close>, whose first assignment
  raises, so the run ends with a second message and the form as it was.
\<close>

theorem amount_bound_inclusive:
  assumes "strip (customer_name s) \<noteq> []"
  shows "(fst (validate_amount a f) \<longleftrightarrow> 0 \<le> a \<and> a \<le> 1000000)
    \<and> (1000000 < b1 \<longrightarrow>
         save_entry now s b1 bc k kc db
           = (Stopped, [St_error (OutOfRange ''Total B Amount'' ExceedsMaximum)], s, db))
    \<and> (b2 < 0 \<longrightarrow>
         save_entry now s b2 bc k kc db
           = (Stopped, [St_error (OutOfRange ''Total B Amount'' Negative)], s, db))
    \<and> (0 \<le> b3 \<and> b3 \<le> 1000000 \<and> 1000000 < k1 \<longrightarrow>
         save_entry now s b3 bc k1 kc db
           = (Stopped, [St_error (OutOfRange ''Total K Amount'' ExceedsMaximum)], s, db))
    \<and> (0 \<le> b3 \<and> b3 \<le> 1000000 \<and> k2 < 0 \<longrightarrow>
         save_entry now s b3 bc k2 kc db
           = (Stopped, [St_error (OutOfRange ''Total K Amount'' Negative)], s, db))
    \<and> (0 \<le> b3 \<and> b3 \<le> 1000000 \<and> 0 \<le> k3 \<and> k3 \<le> 1000000 \<longrightarrow>
         save_entry now s b3 bc k3 kc db
           = (Stopped,
              [St_success ''Entry saved successfully!'',
               St_error (UnexpectedError (StreamlitAPIException ''customer_name''))],
              s,
              \<lparr>rows = rows db @
               [\<lparr>row_id = Suc (seq db), entry_date = fst now, entry_time = snd now,
                row_customer_type = customer_type s,
                row_customer_name = strip (customer_name s),
                row_payment_mode = payment_mode s,
                b_amount = b3, b_charges = bc, k_amount = k3, k_charges = kc,
                grand_charges = fadd bc kc, row_remarks = strip (remarks s)\<rparr>],
               seq = Suc (seq db)\<rparr>))"
  using assms
  by (simp add: save_entry_def validate_amount_def MAX_AMOUNT_def insert_entry_def
      reset_form_raises Let_def)

theorem amount_bound_inclusive_witness:
  "strip (customer_name (defaults\<lparr>customer_name := ustr ''Asha''\<rparr>)) \<noteq> []
   \<and> save_entry (''2024-01-01'', ''10:00:00'') (defaults\<lparr>customer_name := ustr ''Asha''\<rparr>)
        1000001 0 0 0 \<lparr>rows = [], seq = 0\<rparr>
      = (Stopped, [St_error (OutOfRange ''Total B Amount'' ExceedsMaximum)],
         defaults\<lparr>customer_name := ustr ''Asha''\<rparr>, \<lparr>rows = [], seq = 0\<rparr>)
   \<and> save_entry (''2024-01-01'', ''10:00:00'') (defaults\<lparr>customer_name := ustr ''Asha''\<rparr>)
        (- 1) 0 0 0 \<lparr>rows = [], seq = 0\<rparr>
      = (Stopped, [St_error (OutOfRange ''Total B Amount'' Negative)],
         defaults\<lparr>customer_name := ustr ''Asha''\<rparr>, \<lparr>rows = [], seq = 0\<rparr>)
   \<and> map b_amount (rows (snd (snd (snd (save_entry (''2024-01-01'', ''10:00:00'')
        (defaults\<lparr>customer_name := ustr ''Asha''\<rparr>) 1000000 0 0 0 \<lparr>rows = [], seq = 0\<rparr>)))))
      = [1000000]
   \<and> fst (snd (save_entry (''2024-01-01'', ''10:00:00'')
        (defaults\<lparr>customer_name := ustr ''Asha''\<rparr>) 1000000 0 0 0 \<lparr>rows = [], seq = 0\<rparr>))
      = [St_success ''Entry saved successfully!'',
         St_error (UnexpectedError (StreamlitAPIException ''customer_name''))]"
proof -
  have name: "strip (customer_name (defaults\<lparr>customer_name := ustr ''Asha''\<rparr>)) \<noteq> []"
    by (simp add: strip_def isspace_def)
  from amount_bound_inclusive [OF name, of _ _ 1000001 "(''2024-01-01'', ''10:00:00'')" 0 0 0
      "\<lparr>rows = [], seq = 0\<rparr>" "- 1" 1000000 _ _ 0] name
  show ?thesis by simp
qed

text \<open>
  C2, as stated, fails: \<open>validate_amount\<close> renders. A save with the two deposit lines
  1,000,000 and 1 hands the total 1,000,001 to \<open>validate_amount\<close>, which puts an error
  message on the page; the message of the run is the validator's.
\<close>

theorem validate_amount_renders:
  "validate_amount 1000001 ''Total B Amount''
     = (False, [St_error (OutOfRange ''Total B Amount'' ExceedsMaximum)])
   \<and> fst (snd (render_new_entry_tab (''2024-01-01'', ''10:00:00'') ClickSave
       (defaults\<lparr>customer_name := ustr ''Asha'',
        b_entries := [\<lparr>amount = 1000000, charge_pct = 0, item_id = Some 1\<rparr>,
                      \<lparr>amount = 1, charge_pct = 0, item_id = Some 2\<rparr>],
        b_counter := 3\<rparr>) \<lparr>rows = [], seq = 0\<rparr>))
     = [St_error (OutOfRange ''Total B Amount'' ExceedsMaximum)]"
  by (simp add: run_defs)

text \<open>
  C2, amended. \<open>validate_amount\<close> and \<open>validate_charge_percentage\<close> return a verdict and
  render an error message exactly when the verdict is a rejection; they have no access to
  the store. The save handler writes to the store only when the customer name is not
  empty after \<open>strip\<close> and \<open>validate_amount\<close> has accepted both totals; the update handler
  writes only when the customer name is not empty after \<open>strip\<close>.
\<close>

theorem validators_and_write_paths:
  "(fst (validate_amount a f) \<longleftrightarrow> snd (validate_amount a f) = [])
   \<and> (fst (validate_charge_percentage p f) \<longleftrightarrow> snd (validate_charge_percentage p f) = [])
   \<and> (snd (snd (snd (save_entry now s b bc k kc db))) \<noteq> db \<longrightarrow>
        strip (customer_name s) \<noteq> [] \<and> fst (validate_amount b ''Total B Amount'')
        \<and> fst (validate_amount k ''Total K Amount''))
   \<and> (snd (snd (update_entry eid en ct pm ub ubc uk ukc rm udb)) \<noteq> udb \<longrightarrow> strip en \<noteq> [])"
  by (simp add: validate_amount_def validate_charge_percentage_def save_entry_def
      update_entry_def Let_def split: prod.splits)

theorem validators_and_write_paths_witness:
  "snd (snd (snd (save_entry (''2024-01-01'', ''10:00:00'') (defaults\<lparr>customer_name := ustr ''Asha''\<rparr>)
      500 10 0 0 \<lparr>rows = [], seq = 0\<rparr>))) \<noteq> \<lparr>rows = [], seq = 0\<rparr>
   \<and> strip (customer_name (defaults\<lparr>customer_name := ustr ''Asha''\<rparr>)) \<noteq> []
   \<and> fst (validate_amount 500 ''Total B Amount'')
   \<and> fst (validate_amount 0 ''Total K Amount'')
   \<and> snd (snd (update_entry 1 (ustr ''Asha K'') Office UPI 100 2 0 0 []
        \<lparr>rows = [\<lparr>row_id = 1, entry_date = ''2024-01-01'', entry_time = ''10:00:00'',
               row_customer_type = Office, row_customer_name = ustr ''Asha'',
               row_payment_mode = Cash, b_amount = 100, b_charges = 1, k_amount = 0,
               k_charges = 0, grand_charges = 1, row_remarks = []\<rparr>], seq = 1\<rparr>))
      \<noteq> \<lparr>rows = [\<lparr>row_id = 1, entry_date = ''2024-01-01'', entry_time = ''10:00:00'',
               row_customer_type = Office, row_customer_name = ustr ''Asha'',
               row_payment_mode = Cash, b_amount = 100, b_charges = 1, k_amount = 0,
               k_charges = 0, grand_charges = 1, row_remarks = []\<rparr>], seq = 1\<rparr>
   \<and> strip (ustr ''Asha K'') \<noteq> []"
proof -
  have w: "snd (snd (snd (save_entry (''2024-01-01'', ''10:00:00'')
      (defaults\<lparr>customer_name := ustr ''Asha''\<rparr>) 500 10 0 0 \<lparr>rows = [], seq = 0\<rparr>)))
      \<noteq> \<lparr>rows = [], seq = 0\<rparr>"
    by (simp add: save_entry_def validate_amount_def MAX_AMOUNT_def insert_entry_def
        reset_form_raises strip_def isspace_def Let_def)
  have u: "snd (snd (update_entry 1 (ustr ''Asha K'') Office UPI 100 2 0 0 []
        \<lparr>rows = [\<lparr>row_id = 1, entry_date = ''2024-01-01'', entry_time = ''10:00:00'',
               row_customer_type = Office, row_customer_name = ustr ''Asha'',
               row_payment_mode = Cash, b_amount = 100, b_charges = 1, k_amount = 0,
               k_charges = 0, grand_charges = 1, row_remarks = []\<rparr>], seq = 1\<rparr>))
      \<noteq> \<lparr>rows = [\<lparr>row_id = 1, entry_date = ''2024-01-01'', entry_time = ''10:00:00'',
               row_customer_type = Office, row_customer_name = ustr ''Asha'',
               row_payment_mode = Cash, b_amount = 100, b_charges = 1, k_amount = 0,
               k_charges = 0, grand_charges = 1, row_remarks = []\<rparr>], seq = 1\<rparr>"
    by (simp add: update_entry_def update_row_def strip_def isspace_def)
  from validators_and_write_paths [of _ _ _ "(''2024-01-01'', ''10:00:00'')"
      "defaults\<lparr>customer_name := ustr ''Asha''\<rparr>" 500 10 0 0 "\<lparr>rows = [], seq = 0\<rparr>"
      1 "ustr ''Asha K''" Office UPI 100 2 0 0 "[]" "\<lparr>rows = [\<lparr>row_id = 1, entry_date = ''2024-01-01'', entry_time = ''10:00:00'',
               row_customer_type = Office, row_customer_name = ustr ''Asha'',
               row_payment_mode = Cash, b_amount = 100, b_charges = 1, k_amount = 0,
               k_charges = 0, grand_charges = 1, row_remarks = []\<rparr>], seq = 1\<rparr>"] w u
  show ?thesis by blast
qed

text \<open>
  C5, as stated, fails: an update of id 7 on a store that holds only id 1 changes nothing
  and shows "Entry updated successfully!".
\<close>

theorem update_absent_id_counterexample:
  "update_entry 7 (ustr ''Asha'') Office Cash 100 2 0 0 []
     \<lparr>rows = [\<lparr>row_id = 1, entry_date = ''2024-01-01'', entry_time = ''10:00:00'',
               row_customer_type = Office, row_customer_name = ustr ''Asha'',
               row_payment_mode = Cash, b_amount = 100, b_charges = 1, k_amount = 0,
               k_charges = 0, grand_charges = 1, row_remarks = []\<rparr>], seq = 7\<rparr>
   = (Rerun, [St_success ''Entry updated successfully!''],
      \<lparr>rows = [\<lparr>row_id = 1, entry_date = ''2024-01-01'', entry_time = ''10:00:00'',
               row_customer_type = Office, row_customer_name = ustr ''Asha'',
               row_payment_mode = Cash, b_amount = 100, b_charges = 1, k_amount = 0,
               k_charges = 0, grand_charges = 1, row_remarks = []\<rparr>], seq = 7\<rparr>)"
  by (simp add: update_entry_def update_row_def strip_def isspace_def)

text \<open>
  C5, amended. An update of an id that is absent from the store, with a customer name
  that is not empty after \<open>strip\<close>, leaves the store unchanged and reports success; no
  \<open>NotFound\<close> error exists.
\<close>

theorem update_absent_id_reports_success:
  assumes "strip en \<noteq> []" and "eid \<notin> row_id ` set (rows db)"
  shows "update_entry eid en ct pm b_amt b_chg k_amt k_chg rm db
           = (Rerun, [St_success ''Entry updated successfully!''], db)"
  using assms by (simp add: update_entry_def update_row_absent)

theorem update_absent_id_reports_success_witness:
  "strip (ustr ''Asha'') \<noteq> []
   \<and> (7::nat) \<notin> row_id ` set (rows \<lparr>rows = [\<lparr>row_id = 1, entry_date = ''2024-01-01'', entry_time = ''10:00:00'',
               row_customer_type = Office, row_customer_name = ustr ''Asha'',
               row_payment_mode = Cash, b_amount = 100, b_charges = 1, k_amount = 0,
               k_charges = 0, grand_charges = 1, row_remarks = []\<rparr>], seq = 7\<rparr>)
   \<and> update_entry 7 (ustr ''Asha'') Office Cash 100 2 0 0 []
        \<lparr>rows = [\<lparr>row_id = 1, entry_date = ''2024-01-01'', entry_time = ''10:00:00'',
               row_customer_type = Office, row_customer_name = ustr ''Asha'',
               row_payment_mode = Cash, b_amount = 100, b_charges = 1, k_amount = 0,
               k_charges = 0, grand_charges = 1, row_remarks = []\<rparr>], seq = 7\<rparr>
       = (Rerun, [St_success ''Entry updated successfully!''],
          \<lparr>rows = [\<lparr>row_id = 1, entry_date = ''2024-01-01'', entry_time = ''10:00:00'',
               row_customer_type = Office, row_customer_name = ustr ''Asha'',
               row_payment_mode = Cash, b_amount = 100, b_charges = 1, k_amount = 0,
               k_charges = 0, grand_charges = 1, row_remarks = []\<rparr>], seq = 7\<rparr>)"
proof -
  have n: "strip (ustr ''Asha'') \<noteq> []" by (simp add: strip_def isspace_def)
  have a: "(7::nat) \<notin> row_id ` set (rows \<lparr>rows = [\<lparr>row_id = 1, entry_date = ''2024-01-01'', entry_time = ''10:00:00'',
               row_customer_type = Office, row_customer_name = ustr ''Asha'',
               row_payment_mode = Cash, b_amount = 100, b_charges = 1, k_amount = 0,
               k_charges = 0, grand_charges = 1, row_remarks = []\<rparr>], seq = 7\<rparr>)"
    by simp
  from update_absent_id_reports_success [OF n a] n a show ?thesis by blast
qed

text \<open>
  C10. The update handler tests \<open>en.strip()\<close> and stores \<open>en\<close>: the name \<open>" Bob "\<close> is
  persisted with its leading and trailing blank, while the save handler stores the
  stripped name.
\<close>

theorem update_stores_untrimmed_name:
  "map row_customer_name (rows (snd (snd (update_entry 1 (ustr '' Bob '') Office Cash 100 2 0 0 []
     \<lparr>rows = [\<lparr>row_id = 1, entry_date = ''2024-01-01'', entry_time = ''10:00:00'',
               row_customer_type = Office, row_customer_name = ustr ''Bob'',
               row_payment_mode = Cash, b_amount = 100, b_charges = 2, k_amount = 0,
               k_charges = 0, grand_charges = 2, row_remarks = []\<rparr>], seq = 1\<rparr>))))
   = [ustr '' Bob ''] \<and> strip (ustr '' Bob '') = ustr ''Bob''
   \<and> strip (ustr '' Bob '') \<noteq> ustr '' Bob ''
   \<and> map row_customer_name (rows (snd (snd (snd (save_entry (''2024-01-01'', ''10:00:00'')
        (defaults\<lparr>customer_name := ustr '' Bob ''\<rparr>) 100 2 0 0 \<lparr>rows = [], seq = 0\<rparr>)))))
      = [ustr ''Bob'']"
  by (simp add: update_entry_def update_row_def strip_def isspace_def save_entry_def
      validate_amount_def MAX_AMOUNT_def insert_entry_def reset_form_raises defaults_def
      float_defs Let_def)

text \<open>
  C9, as stated, fails: after a delete request for entry 1, a run of the tab with entry 2
  selected leaves the state at "pending confirmation of 1".
\<close>

theorem pending_survives_navigation:
  "delete_flow NoClick 2
     (fst (snd (snd (delete_flow ClickDelete 1 defaults \<lparr>rows = [], seq = 2\<rparr>))))
     \<lparr>rows = [], seq = 2\<rparr>
   = (Completed, [], defaults\<lparr>confirm_delete := True, delete_id := Some 1\<rparr>, \<lparr>rows = [], seq = 2\<rparr>)"
  by (simp add: delete_flow_def defaults_def)

text \<open>
  C9, amended. With no confirmation pending, a delete request for the selected entry
  makes its confirmation pending and leaves the store unchanged. With the confirmation
  of the selected entry pending, cancel returns to the idle state without a change of the
  store, and confirm returns to the idle state and deletes the rows with that id: exactly
  one row when the ids of the store are distinct and the id is present. While the
  confirmation of another entry is pending, a run with the selected entry offers no
  button: state and store stay as they are.
\<close>

theorem delete_flow_machine:
  "(\<not> confirm_delete s \<longrightarrow>
      delete_flow ClickDelete eid s db
        = (Rerun, [], s\<lparr>confirm_delete := True, delete_id := Some eid\<rparr>, db))
   \<and> (confirm_delete s \<and> delete_id s = Some eid \<longrightarrow>
      delete_flow ClickNo eid s db
        = (Rerun, [], s\<lparr>confirm_delete := False, delete_id := None\<rparr>, db)
      \<and> delete_flow ClickYes eid s db
        = (Rerun, [St_success ''Entry deleted''],
           s\<lparr>confirm_delete := False, delete_id := None\<rparr>, delete_row eid db)
      \<and> rows (delete_row eid db) = filter (\<lambda>r. row_id r \<noteq> eid) (rows db)
      \<and> (distinct (map row_id (rows db)) \<and> eid \<in> row_id ` set (rows db) \<longrightarrow>
           Suc (length (rows (delete_row eid db))) = length (rows db)))
   \<and> (confirm_delete s \<and> delete_id s \<noteq> Some eid' \<longrightarrow>
      delete_flow ck eid' s db = (Completed, [], s, db))"
  by (simp add: delete_flow_def delete_row_def length_filter_distinct_key)

theorem delete_flow_machine_witness:
  "confirm_delete (defaults\<lparr>confirm_delete := True, delete_id := Some 1\<rparr>)
   \<and> delete_id (defaults\<lparr>confirm_delete := True, delete_id := Some 1\<rparr>) = Some 1
   \<and> distinct (map row_id (rows 
     \<lparr>rows = [\<lparr>row_id = 1, entry_date = ''2024-01-05'', entry_time = ''09:00:00'',
               row_customer_type = Office, row_customer_name = ustr ''A'', row_payment_mode = Cash,
               b_amount = 1, b_charges = 0, k_amount = 0, k_charges = 0, grand_charges = 0,
               row_remarks = []\<rparr>,
              \<lparr>row_id = 2, entry_date = ''2024-01-05'', entry_time = ''10:00:00'',
               row_customer_type = Office, row_customer_name = ustr ''B'', row_payment_mode = Cash,
               b_amount = 2, b_charges = 0, k_amount = 0, k_charges = 0, grand_charges = 0,
               row_remarks = []\<rparr>], seq = 2\<rparr>)) \<and> 1 \<in> row_id ` set (rows 
     \<lparr>rows = [\<lparr>row_id = 1, entry_date = ''2024-01-05'', entry_time = ''09:00:00'',
               row_customer_type = Office, row_customer_name = ustr ''A'', row_payment_mode = Cash,
               b_amount = 1, b_charges = 0, k_amount = 0, k_charges = 0, grand_charges = 0,
               row_remarks = []\<rparr>,
              \<lparr>row_id = 2, entry_date = ''2024-01-05'', entry_time = ''10:00:00'',
               row_customer_type = Office, row_customer_name = ustr ''B'', row_payment_mode = Cash,
               b_amount = 2, b_charges = 0, k_amount = 0, k_charges = 0, grand_charges = 0,
               row_remarks = []\<rparr>], seq = 2\<rparr>)
   \<and> map row_id (rows (snd (snd (snd (delete_flow ClickYes 1
        (defaults\<lparr>confirm_delete := True, delete_id := Some 1\<rparr>) 
     \<lparr>rows = [\<lparr>row_id = 1, entry_date = ''2024-01-05'', entry_time = ''09:00:00'',
               row_customer_type = Office, row_customer_name = ustr ''A'', row_payment_mode = Cash,
               b_amount = 1, b_charges = 0, k_amount = 0, k_charges = 0, grand_charges = 0,
               row_remarks = []\<rparr>,
              \<lparr>row_id = 2, entry_date = ''2024-01-05'', entry_time = ''10:00:00'',
               row_customer_type = Office, row_customer_name = ustr ''B'', row_payment_mode = Cash,
               b_amount = 2, b_charges = 0, k_amount = 0, k_charges = 0, grand_charges = 0,
               row_remarks = []\<rparr>], seq = 2\<rparr>))))) = [2]
   \<and> Suc (length (rows (delete_row 1 
     \<lparr>rows = [\<lparr>row_id = 1, entry_date = ''2024-01-05'', entry_time = ''09:00:00'',
               row_customer_type = Office, row_customer_name = ustr ''A'', row_payment_mode = Cash,
               b_amount = 1, b_charges = 0, k_amount = 0, k_charges = 0, grand_charges = 0,
               row_remarks = []\<rparr>,
              \<lparr>row_id = 2, entry_date = ''2024-01-05'', entry_time = ''10:00:00'',
               row_customer_type = Office, row_customer_name = ustr ''B'', row_payment_mode = Cash,
               b_amount = 2, b_charges = 0, k_amount = 0, k_charges = 0, grand_charges = 0,
               row_remarks = []\<rparr>], seq = 2\<rparr>))) = length (rows 
     \<lparr>rows = [\<lparr>row_id = 1, entry_date = ''2024-01-05'', entry_time = ''09:00:00'',
               row_customer_type = Office, row_customer_name = ustr ''A'', row_payment_mode = Cash,
               b_amount = 1, b_charges = 0, k_amount = 0, k_charges = 0, grand_charges = 0,
               row_remarks = []\<rparr>,
              \<lparr>row_id = 2, entry_date = ''2024-01-05'', entry_time = ''10:00:00'',
               row_customer_type = Office, row_customer_name = ustr ''B'', row_payment_mode = Cash,
               b_amount = 2, b_charges = 0, k_amount = 0, k_charges = 0, grand_charges = 0,
               row_remarks = []\<rparr>], seq = 2\<rparr>)
   \<and> \<not> confirm_delete (fst (snd (snd (delete_flow ClickYes 1
        (defaults\<lparr>confirm_delete := True, delete_id := Some 1\<rparr>) 
     \<lparr>rows = [\<lparr>row_id = 1, entry_date = ''2024-01-05'', entry_time = ''09:00:00'',
               row_customer_type = Office, row_customer_name = ustr ''A'', row_payment_mode = Cash,
               b_amount = 1, b_charges = 0, k_amount = 0, k_charges = 0, grand_charges = 0,
               row_remarks = []\<rparr>,
              \<lparr>row_id = 2, entry_date = ''2024-01-05'', entry_time = ''10:00:00'',
               row_customer_type = Office, row_customer_name = ustr ''B'', row_payment_mode = Cash,
               b_amount = 2, b_charges = 0, k_amount = 0, k_charges = 0, grand_charges = 0,
               row_remarks = []\<rparr>], seq = 2\<rparr>))))
   \<and> delete_flow ClickNo 1 (defaults\<lparr>confirm_delete := True, delete_id := Some 1\<rparr>) 
     \<lparr>rows = [\<lparr>row_id = 1, entry_date = ''2024-01-05'', entry_time = ''09:00:00'',
               row_customer_type = Office, row_customer_name = ustr ''A'', row_payment_mode = Cash,
               b_amount = 1, b_charges = 0, k_amount = 0, k_charges = 0, grand_charges = 0,
               row_remarks = []\<rparr>,
              \<lparr>row_id = 2, entry_date = ''2024-01-05'', entry_time = ''10:00:00'',
               row_customer_type = Office, row_customer_name = ustr ''B'', row_payment_mode = Cash,
               b_amount = 2, b_charges = 0, k_amount = 0, k_charges = 0, grand_charges = 0,
               row_remarks = []\<rparr>], seq = 2\<rparr>
      = (Rerun, [], defaults\<lparr>confirm_delete := False, delete_id := None\<rparr>, 
     \<lparr>rows = [\<lparr>row_id = 1, entry_date = ''2024-01-05'', entry_time = ''09:00:00'',
               row_customer_type = Office, row_customer_name = ustr ''A'', row_payment_mode = Cash,
               b_amount = 1, b_charges = 0, k_amount = 0, k_charges = 0, grand_charges = 0,
               row_remarks = []\<rparr>,
              \<lparr>row_id = 2, entry_date = ''2024-01-05'', entry_time = ''10:00:00'',
               row_customer_type = Office, row_customer_name = ustr ''B'', row_payment_mode = Cash,
               b_amount = 2, b_charges = 0, k_amount = 0, k_charges = 0, grand_charges = 0,
               row_remarks = []\<rparr>], seq = 2\<rparr>)
   \<and> \<not> confirm_delete defaults
   \<and> delete_flow ClickDelete 1 defaults 
     \<lparr>rows = [\<lparr>row_id = 1, entry_date = ''2024-01-05'', entry_time = ''09:00:00'',
               row_customer_type = Office, row_customer_name = ustr ''A'', row_payment_mode = Cash,
               b_amount = 1, b_charges = 0, k_amount = 0, k_charges = 0, grand_charges = 0,
               row_remarks = []\<rparr>,
              \<lparr>row_id = 2, entry_date = ''2024-01-05'', entry_time = ''10:00:00'',
               row_customer_type = Office, row_customer_name = ustr ''B'', row_payment_mode = Cash,
               b_amount = 2, b_charges = 0, k_amount = 0, k_charges = 0, grand_charges = 0,
               row_remarks = []\<rparr>], seq = 2\<rparr>
      = (Rerun, [], defaults\<lparr>confirm_delete := True, delete_id := Some 1\<rparr>, 
     \<lparr>rows = [\<lparr>row_id = 1, entry_date = ''2024-01-05'', entry_time = ''09:00:00'',
               row_customer_type = Office, row_customer_name = ustr ''A'', row_payment_mode = Cash,
               b_amount = 1, b_charges = 0, k_amount = 0, k_charges = 0, grand_charges = 0,
               row_remarks = []\<rparr>,
              \<lparr>row_id = 2, entry_date = ''2024-01-05'', entry_time = ''10:00:00'',
               row_customer_type = Office, row_customer_name = ustr ''B'', row_payment_mode = Cash,
               b_amount = 2, b_charges = 0, k_amount = 0, k_charges = 0, grand_charges = 0,
               row_remarks = []\<rparr>], seq = 2\<rparr>)"
proof -
  have p: "confirm_delete (defaults\<lparr>confirm_delete := True, delete_id := Some 1\<rparr>)
    \<and> delete_id (defaults\<lparr>confirm_delete := True, delete_id := Some 1\<rparr>) = Some 1"
    by simp
  have d: "distinct (map row_id (rows 
     \<lparr>rows = [\<lparr>row_id = 1, entry_date = ''2024-01-05'', entry_time = ''09:00:00'',
               row_customer_type = Office, row_customer_name = ustr ''A'', row_payment_mode = Cash,
               b_amount = 1, b_charges = 0, k_amount = 0, k_charges = 0, grand_charges = 0,
               row_remarks = []\<rparr>,
              \<lparr>row_id = 2, entry_date = ''2024-01-05'', entry_time = ''10:00:00'',
               row_customer_type = Office, row_customer_name = ustr ''B'', row_payment_mode = Cash,
               b_amount = 2, b_charges = 0, k_amount = 0, k_charges = 0, grand_charges = 0,
               row_remarks = []\<rparr>], seq = 2\<rparr>)) \<and> 1 \<in> row_id ` set (rows 
     \<lparr>rows = [\<lparr>row_id = 1, entry_date = ''2024-01-05'', entry_time = ''09:00:00'',
               row_customer_type = Office, row_customer_name = ustr ''A'', row_payment_mode = Cash,
               b_amount = 1, b_charges = 0, k_amount = 0, k_charges = 0, grand_charges = 0,
               row_remarks = []\<rparr>,
              \<lparr>row_id = 2, entry_date = ''2024-01-05'', entry_time = ''10:00:00'',
               row_customer_type = Office, row_customer_name = ustr ''B'', row_payment_mode = Cash,
               b_amount = 2, b_charges = 0, k_amount = 0, k_charges = 0, grand_charges = 0,
               row_remarks = []\<rparr>], seq = 2\<rparr>)"
    by simp
  have i: "\<not> confirm_delete defaults"
    by (simp add: defaults_def)
  from delete_flow_machine [of "defaults\<lparr>confirm_delete := True, delete_id := Some 1\<rparr>" 1 "
     \<lparr>rows = [\<lparr>row_id = 1, entry_date = ''2024-01-05'', entry_time = ''09:00:00'',
               row_customer_type = Office, row_customer_name = ustr ''A'', row_payment_mode = Cash,
               b_amount = 1, b_charges = 0, k_amount = 0, k_charges = 0, grand_charges = 0,
               row_remarks = []\<rparr>,
              \<lparr>row_id = 2, entry_date = ''2024-01-05'', entry_time = ''10:00:00'',
               row_customer_type = Office, row_customer_name = ustr ''B'', row_payment_mode = Cash,
               b_amount = 2, b_charges = 0, k_amount = 0, k_charges = 0, grand_charges = 0,
               row_remarks = []\<rparr>], seq = 2\<rparr>"]
    delete_flow_machine [of defaults 1 "
     \<lparr>rows = [\<lparr>row_id = 1, entry_date = ''2024-01-05'', entry_time = ''09:00:00'',
               row_customer_type = Office, row_customer_name = ustr ''A'', row_payment_mode = Cash,
               b_amount = 1, b_charges = 0, k_amount = 0, k_charges = 0, grand_charges = 0,
               row_remarks = []\<rparr>,
              \<lparr>row_id = 2, entry_date = ''2024-01-05'', entry_time = ''10:00:00'',
               row_customer_type = Office, row_customer_name = ustr ''B'', row_payment_mode = Cash,
               b_amount = 2, b_charges = 0, k_amount = 0, k_charges = 0, grand_charges = 0,
               row_remarks = []\<rparr>], seq = 2\<rparr>"] p d i
  show ?thesis by (simp add: delete_row_def)
qed

text \<open>
  C8, as stated, fails: the list query orders the rows of one date by id, the export query
  by time. Two rows of one date, the later inserted one carrying the earlier time, come in
  opposite orders.
\<close>

theorem export_order_differs:
  "map export_columns (df_all ''2024-01-01'' ''2024-01-31''
     \<lparr>rows = [\<lparr>row_id = 1, entry_date = ''2024-01-05'', entry_time = ''10:00:00'',
               row_customer_type = Office, row_customer_name = ustr ''A'', row_payment_mode = Cash,
               b_amount = 1, b_charges = 0, k_amount = 0, k_charges = 0, grand_charges = 0,
               row_remarks = []\<rparr>,
              \<lparr>row_id = 2, entry_date = ''2024-01-05'', entry_time = ''09:00:00'',
               row_customer_type = Office, row_customer_name = ustr ''B'', row_payment_mode = Cash,
               b_amount = 2, b_charges = 0, k_amount = 0, k_charges = 0, grand_charges = 0,
               row_remarks = []\<rparr>], seq = 2\<rparr>)
   \<noteq> export_df (DateRange ''2024-01-01'' ''2024-01-31'')
     \<lparr>rows = [\<lparr>row_id = 1, entry_date = ''2024-01-05'', entry_time = ''10:00:00'',
               row_customer_type = Office, row_customer_name = ustr ''A'', row_payment_mode = Cash,
               b_amount = 1, b_charges = 0, k_amount = 0, k_charges = 0, grand_charges = 0,
               row_remarks = []\<rparr>,
              \<lparr>row_id = 2, entry_date = ''2024-01-05'', entry_time = ''09:00:00'',
               row_customer_type = Office, row_customer_name = ustr ''B'', row_payment_mode = Cash,
               b_amount = 2, b_charges = 0, k_amount = 0, k_charges = 0, grand_charges = 0,
               row_remarks = []\<rparr>], seq = 2\<rparr>"
  by (simp add: df_all_def export_df_def query_condition_def export_columns_def)

text \<open>
  C8, amended. For every date range the export query returns the rows of the list query,
  restricted to the export columns, each as often as the list query does. The two results
  agree position by position when the ids of the store are distinct and, among the rows
  of one date, a larger id goes with a strictly later time.
\<close>

theorem export_rows_match_list_rows:
  "mset (map export_columns (df_all start_date end_date db))
     = mset (export_df (DateRange start_date end_date) db)
   \<and> (distinct (map row_id (rows db))
       \<and> (\<forall>r1\<in>set (rows db). \<forall>r2\<in>set (rows db).
             entry_date r1 = entry_date r2 \<and> row_id r1 < row_id r2 \<longrightarrow> entry_time r1 < entry_time r2)
      \<longrightarrow> map export_columns (df_all start_date end_date db)
            = export_df (DateRange start_date end_date) db)"
proof (intro conjI impI)
  show "mset (map export_columns (df_all start_date end_date db))
     = mset (export_df (DateRange start_date end_date) db)"
    by (simp add: df_all_def export_df_def query_condition_range)
next
  assume H: "distinct (map row_id (rows db))
       \<and> (\<forall>r1\<in>set (rows db). \<forall>r2\<in>set (rows db).
             entry_date r1 = entry_date r2 \<and> row_id r1 < row_id r2 \<longrightarrow> entry_time r1 < entry_time r2)"
  let ?xs = "filter (\<lambda>r. start_date \<le> entry_date r \<and> entry_date r \<le> end_date) (rows db)"
  have "(entry_date x, row_id x) \<le> (entry_date y, row_id y)
        \<longleftrightarrow> (entry_date x, entry_time x) \<le> (entry_date y, entry_time y)"
    if x: "x \<in> set (rows db)" and y: "y \<in> set (rows db)" for x y
  proof (cases "entry_date x = entry_date y")
    case False
    then show ?thesis by auto
  next
    case True
    have "row_id x \<le> row_id y \<longleftrightarrow> entry_time x \<le> entry_time y"
    proof
      assume "row_id x \<le> row_id y"
      then consider "row_id x = row_id y" | "row_id x < row_id y" by linarith
      then show "entry_time x \<le> entry_time y"
      proof cases
        case 1
        with H x y have "x = y" using same_id_same_row by blast
        then show ?thesis by simp
      next
        case 2
        with H x y True have "entry_time x < entry_time y" by blast
        then show ?thesis by simp
      qed
    next
      assume t: "entry_time x \<le> entry_time y"
      show "row_id x \<le> row_id y"
      proof (rule ccontr)
        assume "\<not> row_id x \<le> row_id y"
        then have "row_id y < row_id x" by simp
        with H x y True have "entry_time y < entry_time x" by auto
        with t show False by simp
      qed
    qed
    with True show ?thesis by auto
  qed
  then have keys: "\<forall>x\<in>set ?xs. \<forall>y\<in>set ?xs.
      ((entry_date x, row_id x) \<le> (entry_date y, row_id y))
        = ((entry_date x, entry_time x) \<le> (entry_date y, entry_time y))"
    by auto
  have "inj_on (\<lambda>r. (entry_date r, entry_time r)) (set ?xs)"
  proof (rule inj_onI)
    fix x y
    assume x: "x \<in> set ?xs" and y: "y \<in> set ?xs"
      and e: "(entry_date x, entry_time x) = (entry_date y, entry_time y)"
    from e have d: "entry_date x = entry_date y" and t: "entry_time x = entry_time y"
      by simp_all
    from keys x y
    have k1: "((entry_date x, row_id x) \<le> (entry_date y, row_id y))
        = ((entry_date x, entry_time x) \<le> (entry_date y, entry_time y))"
      by blast
    from keys x y
    have k2: "((entry_date y, row_id y) \<le> (entry_date x, row_id x))
        = ((entry_date y, entry_time y) \<le> (entry_date x, entry_time x))"
      by blast
    from k1 d t have "row_id x \<le> row_id y" by simp
    moreover from k2 d t have "row_id y \<le> row_id x" by simp
    ultimately have "row_id x = row_id y" by simp
    moreover from x y have "x \<in> set (rows db)" "y \<in> set (rows db)" by simp_all
    ultimately show "x = y" using H same_id_same_row [of "rows db" x y] by blast
  qed
  then have "sort_key (\<lambda>r. (entry_date r, entry_time r)) (rev ?xs)
      = sort_key (\<lambda>r. (entry_date r, entry_time r)) ?xs"
    by (rule sort_key_rev)
  moreover have "sort_key (\<lambda>r. (entry_date r, row_id r)) ?xs
      = sort_key (\<lambda>r. (entry_date r, entry_time r)) ?xs"
    using keys by (rule sort_key_order_cong)
  ultimately have "sort_key (\<lambda>r. (entry_date r, row_id r)) ?xs
      = sort_key (\<lambda>r. (entry_date r, entry_time r)) (rev ?xs)"
    by simp
  then show "map export_columns (df_all start_date end_date db)
            = export_df (DateRange start_date end_date) db"
    by (simp add: df_all_def export_df_def query_condition_range)
qed

theorem export_rows_match_list_rows_witness:
  "distinct (map row_id (rows 
     \<lparr>rows = [\<lparr>row_id = 1, entry_date = ''2024-01-05'', entry_time = ''09:00:00'',
               row_customer_type = Office, row_customer_name = ustr ''A'', row_payment_mode = Cash,
               b_amount = 1, b_charges = 0, k_amount = 0, k_charges = 0, grand_charges = 0,
               row_remarks = []\<rparr>,
              \<lparr>row_id = 2, entry_date = ''2024-01-05'', entry_time = ''10:00:00'',
               row_customer_type = Office, row_customer_name = ustr ''B'', row_payment_mode = Cash,
               b_amount = 2, b_charges = 0, k_amount = 0, k_charges = 0, grand_charges = 0,
               row_remarks = []\<rparr>], seq = 2\<rparr>))
   \<and> map export_columns (df_all ''2024-01-01'' ''2024-01-31'' 
     \<lparr>rows = [\<lparr>row_id = 1, entry_date = ''2024-01-05'', entry_time = ''09:00:00'',
               row_customer_type = Office, row_customer_name = ustr ''A'', row_payment_mode = Cash,
               b_amount = 1, b_charges = 0, k_amount = 0, k_charges = 0, grand_charges = 0,
               row_remarks = []\<rparr>,
              \<lparr>row_id = 2, entry_date = ''2024-01-05'', entry_time = ''10:00:00'',
               row_customer_type = Office, row_customer_name = ustr ''B'', row_payment_mode = Cash,
               b_amount = 2, b_charges = 0, k_amount = 0, k_charges = 0, grand_charges = 0,
               row_remarks = []\<rparr>], seq = 2\<rparr>)
      = export_df (DateRange ''2024-01-01'' ''2024-01-31'') 
     \<lparr>rows = [\<lparr>row_id = 1, entry_date = ''2024-01-05'', entry_time = ''09:00:00'',
               row_customer_type = Office, row_customer_name = ustr ''A'', row_payment_mode = Cash,
               b_amount = 1, b_charges = 0, k_amount = 0, k_charges = 0, grand_charges = 0,
               row_remarks = []\<rparr>,
              \<lparr>row_id = 2, entry_date = ''2024-01-05'', entry_time = ''10:00:00'',
               row_customer_type = Office, row_customer_name = ustr ''B'', row_payment_mode = Cash,
               b_amount = 2, b_charges = 0, k_amount = 0, k_charges = 0, grand_charges = 0,
               row_remarks = []\<rparr>], seq = 2\<rparr>
   \<and> map row_id (df_all ''2024-01-01'' ''2024-01-31'' 
     \<lparr>rows = [\<lparr>row_id = 1, entry_date = ''2024-01-05'', entry_time = ''09:00:00'',
               row_customer_type = Office, row_customer_name = ustr ''A'', row_payment_mode = Cash,
               b_amount = 1, b_charges = 0, k_amount = 0, k_charges = 0, grand_charges = 0,
               row_remarks = []\<rparr>,
              \<lparr>row_id = 2, entry_date = ''2024-01-05'', entry_time = ''10:00:00'',
               row_customer_type = Office, row_customer_name = ustr ''B'', row_payment_mode = Cash,
               b_amount = 2, b_charges = 0, k_amount = 0, k_charges = 0, grand_charges = 0,
               row_remarks = []\<rparr>], seq = 2\<rparr>) = [2, 1]"
proof -
  have h: "distinct (map row_id (rows 
     \<lparr>rows = [\<lparr>row_id = 1, entry_date = ''2024-01-05'', entry_time = ''09:00:00'',
               row_customer_type = Office, row_customer_name = ustr ''A'', row_payment_mode = Cash,
               b_amount = 1, b_charges = 0, k_amount = 0, k_charges = 0, grand_charges = 0,
               row_remarks = []\<rparr>,
              \<lparr>row_id = 2, entry_date = ''2024-01-05'', entry_time = ''10:00:00'',
               row_customer_type = Office, row_customer_name = ustr ''B'', row_payment_mode = Cash,
               b_amount = 2, b_charges = 0, k_amount = 0, k_charges = 0, grand_charges = 0,
               row_remarks = []\<rparr>], seq = 2\<rparr>))
   \<and> (\<forall>r1\<in>set (rows 
     \<lparr>rows = [\<lparr>row_id = 1, entry_date = ''2024-01-05'', entry_time = ''09:00:00'',
               row_customer_type = Office, row_customer_name = ustr ''A'', row_payment_mode = Cash,
               b_amount = 1, b_charges = 0, k_amount = 0, k_charges = 0, grand_charges = 0,
               row_remarks = []\<rparr>,
              \<lparr>row_id = 2, entry_date = ''2024-01-05'', entry_time = ''10:00:00'',
               row_customer_type = Office, row_customer_name = ustr ''B'', row_payment_mode = Cash,
               b_amount = 2, b_charges = 0, k_amount = 0, k_charges = 0, grand_charges = 0,
               row_remarks = []\<rparr>], seq = 2\<rparr>). \<forall>r2\<in>set (rows 
     \<lparr>rows = [\<lparr>row_id = 1, entry_date = ''2024-01-05'', entry_time = ''09:00:00'',
               row_customer_type = Office, row_customer_name = ustr ''A'', row_payment_mode = Cash,
               b_amount = 1, b_charges = 0, k_amount = 0, k_charges = 0, grand_charges = 0,
               row_remarks = []\<rparr>,
              \<lparr>row_id = 2, entry_date = ''2024-01-05'', entry_time = ''10:00:00'',
               row_customer_type = Office, row_customer_name = ustr ''B'', row_payment_mode = Cash,
               b_amount = 2, b_charges = 0, k_amount = 0, k_charges = 0, grand_charges = 0,
               row_remarks = []\<rparr>], seq = 2\<rparr>).
         entry_date r1 = entry_date r2 \<and> row_id r1 < row_id r2 \<longrightarrow> entry_time r1 < entry_time r2)"
    by simp
  have l: "map row_id (df_all ''2024-01-01'' ''2024-01-31'' 
     \<lparr>rows = [\<lparr>row_id = 1, entry_date = ''2024-01-05'', entry_time = ''09:00:00'',
               row_customer_type = Office, row_customer_name = ustr ''A'', row_payment_mode = Cash,
               b_amount = 1, b_charges = 0, k_amount = 0, k_charges = 0, grand_charges = 0,
               row_remarks = []\<rparr>,
              \<lparr>row_id = 2, entry_date = ''2024-01-05'', entry_time = ''10:00:00'',
               row_customer_type = Office, row_customer_name = ustr ''B'', row_payment_mode = Cash,
               b_amount = 2, b_charges = 0, k_amount = 0, k_charges = 0, grand_charges = 0,
               row_remarks = []\<rparr>], seq = 2\<rparr>) = [2, 1]"
    by (simp add: df_all_def)
  from export_rows_match_list_rows [of "''2024-01-01''" "''2024-01-31''" "
     \<lparr>rows = [\<lparr>row_id = 1, entry_date = ''2024-01-05'', entry_time = ''09:00:00'',
               row_customer_type = Office, row_customer_name = ustr ''A'', row_payment_mode = Cash,
               b_amount = 1, b_charges = 0, k_amount = 0, k_charges = 0, grand_charges = 0,
               row_remarks = []\<rparr>,
              \<lparr>row_id = 2, entry_date = ''2024-01-05'', entry_time = ''10:00:00'',
               row_customer_type = Office, row_customer_name = ustr ''B'', row_payment_mode = Cash,
               b_amount = 2, b_charges = 0, k_amount = 0, k_charges = 0, grand_charges = 0,
               row_remarks = []\<rparr>], seq = 2\<rparr>"] h l
  show ?thesis by blast
qed

text \<open>
  C6. Over every sequence of runs of the New Entry tab (edits, additions, removals, saves),
  a list of lines that is not empty stays not empty. A click on the remove button of a
  list with one line, whose line has its id, leaves the list as it is: the button exists
  only when the list has more than one line.
\<close>

theorem collection_never_empty:
  "(entries_of c s \<noteq> [] \<longrightarrow> entries_of c (fst (runs evs (s, db))) \<noteq> [])
   \<and> (length (entries_of c s) = 1 \<and> (\<forall>e\<in>set (entries_of c s). item_id e \<noteq> None) \<longrightarrow>
        entries_of c (fst (snd (snd (render_new_entry_tab now (ClickRemove c i) s db))))
          = entries_of c s)"
  using runs_nonempty [of c "(s, db)" evs] remove_sole_line [of c s now i db] by simp

theorem collection_never_empty_witness:
  "entries_of B defaults \<noteq> []
   \<and> entries_of B (fst (runs
        [((''2024-01-01'', ''10:00:00''), NoEvent),
         ((''2024-01-01'', ''10:00:05''), ClickAdd B),
         ((''2024-01-01'', ''10:00:09''), ClickRemove B 0),
         ((''2024-01-01'', ''10:00:12''), ClickRemove B 0)]
        (defaults, \<lparr>rows = [], seq = 0\<rparr>))) \<noteq> []
   \<and> map item_id (entries_of B (fst (runs
        [((''2024-01-01'', ''10:00:00''), NoEvent),
         ((''2024-01-01'', ''10:00:05''), ClickAdd B),
         ((''2024-01-01'', ''10:00:09''), ClickRemove B 0),
         ((''2024-01-01'', ''10:00:12''), ClickRemove B 0)]
        (defaults, \<lparr>rows = [], seq = 0\<rparr>)))) = [Some 2]
   \<and> length (entries_of K (snd (reset_form [] defaults))) = 1
   \<and> map item_id (entries_of K (snd (reset_form [] defaults))) = [Some 0]
   \<and> entries_of K (fst (snd (snd (render_new_entry_tab (''2024-01-01'', ''10:00:00'')
        (ClickRemove K 0) (snd (reset_form [] defaults)) \<lparr>rows = [], seq = 0\<rparr>))))
      = entries_of K (snd (reset_form [] defaults))"
proof -
  have a: "entries_of B defaults \<noteq> []"
    by (simp add: entries_of_def defaults_def)
  have b: "length (entries_of K (snd (reset_form [] defaults))) = 1
    \<and> (\<forall>e\<in>set (entries_of K (snd (reset_form [] defaults))). item_id e \<noteq> None)"
    by (simp add: entries_of_def reset_form_def Let_def)
  have e: "map item_id (entries_of B (fst (runs
        [((''2024-01-01'', ''10:00:00''), NoEvent),
         ((''2024-01-01'', ''10:00:05''), ClickAdd B),
         ((''2024-01-01'', ''10:00:09''), ClickRemove B 0),
         ((''2024-01-01'', ''10:00:12''), ClickRemove B 0)]
        (defaults, \<lparr>rows = [], seq = 0\<rparr>)))) = [Some 2]"
    by (simp add: run_defs)
  have i: "map item_id (entries_of K (snd (reset_form [] defaults))) = [Some 0]"
    by (simp add: entries_of_def reset_form_def Let_def)
  from collection_never_empty [of B defaults _ "\<lparr>rows = [], seq = 0\<rparr>"]
    collection_never_empty [of K "snd (reset_form [] defaults)" _ "\<lparr>rows = [], seq = 0\<rparr>"
      "(''2024-01-01'', ''10:00:00'')" 0] a b e i
  show ?thesis by blast
qed


text \<open>
  C7. On a list that is not empty and whose lines have their ids, the add button appends
  a line with amount 0, percentage 0 and the counter's value as id; removing that line in
  the next run restores the list, and the counter has moved on by one. Over every
  sequence of runs of the tab, saves included, the counter of a list never decreases,
  every id in the list at the end was in the list at the start or is a counter value
  issued in between, and the ids stay below the counter when they were below it at the
  start: an id is never issued twice in a session. The reset of the form after a save
  does not restart the counters: the first assignment of \<open>reset_form\<close> raises, and the
  lists and counters stay as they were.
\<close>

theorem add_remove_restores_ids_fresh:
  "(entries_of c s \<noteq> [] \<and> (\<forall>e\<in>set (entries_of c s). item_id e \<noteq> None) \<longrightarrow>
      entries_of c (fst (snd (snd (render_new_entry_tab t1 (ClickAdd c) s db))))
        = entries_of c s @ [\<lparr>amount = 0, charge_pct = 0, item_id = Some (counter_of c s)\<rparr>]
      \<and> entries_of c (fst (runs
           [(t1, ClickAdd c), (t2, ClickRemove c (length (entries_of c s)))] (s, db)))
        = entries_of c s
      \<and> counter_of c (fst (runs
           [(t1, ClickAdd c), (t2, ClickRemove c (length (entries_of c s)))] (s, db)))
        = Suc (counter_of c s))
   \<and> counter_of c s \<le> counter_of c (fst (runs evs (s, db)))
   \<and> (\<forall>i. Some i \<in> item_id ` set (entries_of c (fst (runs evs (s, db)))) \<longrightarrow>
         Some i \<in> item_id ` set (entries_of c s)
         \<or> (counter_of c s \<le> i \<and> i < counter_of c (fst (runs evs (s, db)))))
   \<and> ((\<forall>i. Some i \<in> item_id ` set (entries_of c s) \<longrightarrow> i < counter_of c s) \<longrightarrow>
       (\<forall>i. Some i \<in> item_id ` set (entries_of c (fst (runs evs (s, db)))) \<longrightarrow>
            i < counter_of c (fst (runs evs (s, db)))))
   \<and> entries_of c (fst (snd (snd (save_entry now s b_amt b_chg k_amt k_chg db)))) = entries_of c s
   \<and> counter_of c (fst (snd (snd (save_entry now s b_amt b_chg k_amt k_chg db)))) = counter_of c s"
proof (intro conjI impI)
  assume h: "entries_of c s \<noteq> [] \<and> (\<forall>e\<in>set (entries_of c s). item_id e \<noteq> None)"
  obtain o1 m1 s1 db1 where r1: "render_new_entry_tab t1 (ClickAdd c) s db = (o1, m1, s1, db1)"
    by (cases "render_new_entry_tab t1 (ClickAdd c) s db") auto
  from add_line [OF r1] h r1
  show "entries_of c (fst (snd (snd (render_new_entry_tab t1 (ClickAdd c) s db))))
        = entries_of c s @ [\<lparr>amount = 0, charge_pct = 0, item_id = Some (counter_of c s)\<rparr>]"
    by simp
  from add_then_remove [of c s t1 t2 db] h
  show "entries_of c (fst (runs
           [(t1, ClickAdd c), (t2, ClickRemove c (length (entries_of c s)))] (s, db)))
        = entries_of c s"
    and "counter_of c (fst (runs
           [(t1, ClickAdd c), (t2, ClickRemove c (length (entries_of c s)))] (s, db)))
        = Suc (counter_of c s)"
    by blast+
next
  note f = runs_fresh [of c "(s, db)" evs]
  from f show "counter_of c s \<le> counter_of c (fst (runs evs (s, db)))" by simp
  from f show "\<forall>i. Some i \<in> item_id ` set (entries_of c (fst (runs evs (s, db)))) \<longrightarrow>
              Some i \<in> item_id ` set (entries_of c s)
              \<or> (counter_of c s \<le> i \<and> i < counter_of c (fst (runs evs (s, db))))" by simp
  show "entries_of c (fst (snd (snd (save_entry now s b_amt b_chg k_amt k_chg db)))) = entries_of c s"
    and "counter_of c (fst (snd (snd (save_entry now s b_amt b_chg k_amt k_chg db)))) = counter_of c s"
    by (simp_all add: save_entry_def reset_form_raises Let_def split: prod.splits)
  assume inv: "\<forall>i. Some i \<in> item_id ` set (entries_of c s) \<longrightarrow> i < counter_of c s"
  show "\<forall>i. Some i \<in> item_id ` set (entries_of c (fst (runs evs (s, db)))) \<longrightarrow>
                 i < counter_of c (fst (runs evs (s, db)))"
  proof (intro allI impI)
    fix i assume "Some i \<in> item_id ` set (entries_of c (fst (runs evs (s, db))))"
    with f have "Some i \<in> item_id ` set (entries_of c s)
       \<or> (counter_of c s \<le> i \<and> i < counter_of c (fst (runs evs (s, db))))" by simp
    moreover from f have "counter_of c s \<le> counter_of c (fst (runs evs (s, db)))" by simp
    ultimately show "i < counter_of c (fst (runs evs (s, db)))" using inv by force
  qed
qed

theorem add_remove_restores_ids_fresh_witness:
  "map item_id (entries_of B (defaults\<lparr>b_entries := [\<lparr>amount = 0, charge_pct = 0, item_id = Some 1\<rparr>], b_counter := 2\<rparr>)) = [Some 1]
   \<and> counter_of B (defaults\<lparr>b_entries := [\<lparr>amount = 0, charge_pct = 0, item_id = Some 1\<rparr>], b_counter := 2\<rparr>) = 2
   \<and> entries_of B (fst (runs
        [((''2024-01-01'', ''10:00:00''), ClickAdd B),
         ((''2024-01-01'', ''10:00:05''), ClickRemove B (length (entries_of B (defaults\<lparr>b_entries := [\<lparr>amount = 0, charge_pct = 0, item_id = Some 1\<rparr>], b_counter := 2\<rparr>))))]
        ((defaults\<lparr>b_entries := [\<lparr>amount = 0, charge_pct = 0, item_id = Some 1\<rparr>], b_counter := 2\<rparr>), \<lparr>rows = [], seq = 0\<rparr>)))
      = entries_of B (defaults\<lparr>b_entries := [\<lparr>amount = 0, charge_pct = 0, item_id = Some 1\<rparr>], b_counter := 2\<rparr>)
   \<and> counter_of B defaults \<le> counter_of B (fst (runs
        [((''2024-01-01'', ''10:00:00''), NoEvent),
         ((''2024-01-01'', ''10:00:05''), ClickAdd B),
         ((''2024-01-01'', ''10:00:09''), ClickRemove B 0),
         ((''2024-01-01'', ''10:00:20''), SetCustomerName (ustr ''Asha'')),
         ((''2024-01-01'', ''10:00:30''), ClickSave),
         ((''2024-01-01'', ''10:00:40''), ClickAdd B)]
        (defaults, \<lparr>rows = [], seq = 0\<rparr>)))
   \<and> map item_id (entries_of B (fst (runs
        [((''2024-01-01'', ''10:00:00''), NoEvent),
         ((''2024-01-01'', ''10:00:05''), ClickAdd B),
         ((''2024-01-01'', ''10:00:09''), ClickRemove B 0),
         ((''2024-01-01'', ''10:00:20''), SetCustomerName (ustr ''Asha'')),
         ((''2024-01-01'', ''10:00:30''), ClickSave),
         ((''2024-01-01'', ''10:00:40''), ClickAdd B)]
        (defaults, \<lparr>rows = [], seq = 0\<rparr>)))) = [Some 2, Some 3]
   \<and> counter_of B (fst (runs
        [((''2024-01-01'', ''10:00:00''), NoEvent),
         ((''2024-01-01'', ''10:00:05''), ClickAdd B),
         ((''2024-01-01'', ''10:00:09''), ClickRemove B 0),
         ((''2024-01-01'', ''10:00:20''), SetCustomerName (ustr ''Asha'')),
         ((''2024-01-01'', ''10:00:30''), ClickSave),
         ((''2024-01-01'', ''10:00:40''), ClickAdd B)]
        (defaults, \<lparr>rows = [], seq = 0\<rparr>))) = 4
   \<and> length (rows (snd (runs
        [((''2024-01-01'', ''10:00:00''), NoEvent),
         ((''2024-01-01'', ''10:00:05''), ClickAdd B),
         ((''2024-01-01'', ''10:00:09''), ClickRemove B 0),
         ((''2024-01-01'', ''10:00:20''), SetCustomerName (ustr ''Asha'')),
         ((''2024-01-01'', ''10:00:30''), ClickSave),
         ((''2024-01-01'', ''10:00:40''), ClickAdd B)]
        (defaults, \<lparr>rows = [], seq = 0\<rparr>)))) = 1"
proof -
  have h: "entries_of B (defaults\<lparr>b_entries := [\<lparr>amount = 0, charge_pct = 0, item_id = Some 1\<rparr>], b_counter := 2\<rparr>) \<noteq> [] \<and> (\<forall>e\<in>set (entries_of B (defaults\<lparr>b_entries := [\<lparr>amount = 0, charge_pct = 0, item_id = Some 1\<rparr>], b_counter := 2\<rparr>)). item_id e \<noteq> None)"
    by (simp add: entries_of_def defaults_def)
  have v: "map item_id (entries_of B (defaults\<lparr>b_entries := [\<lparr>amount = 0, charge_pct = 0, item_id = Some 1\<rparr>], b_counter := 2\<rparr>)) = [Some 1] \<and> counter_of B (defaults\<lparr>b_entries := [\<lparr>amount = 0, charge_pct = 0, item_id = Some 1\<rparr>], b_counter := 2\<rparr>) = 2"
    by (simp add: entries_of_def counter_of_def defaults_def)
  have inv: "\<forall>i. Some i \<in> item_id ` set (entries_of B defaults) \<longrightarrow> i < counter_of B defaults"
    by (simp add: entries_of_def counter_of_def defaults_def)
  have e: "map item_id (entries_of B (fst (runs
        [((''2024-01-01'', ''10:00:00''), NoEvent),
         ((''2024-01-01'', ''10:00:05''), ClickAdd B),
         ((''2024-01-01'', ''10:00:09''), ClickRemove B 0),
         ((''2024-01-01'', ''10:00:20''), SetCustomerName (ustr ''Asha'')),
         ((''2024-01-01'', ''10:00:30''), ClickSave),
         ((''2024-01-01'', ''10:00:40''), ClickAdd B)]
        (defaults, \<lparr>rows = [], seq = 0\<rparr>)))) = [Some 2, Some 3]
   \<and> counter_of B (fst (runs
        [((''2024-01-01'', ''10:00:00''), NoEvent),
         ((''2024-01-01'', ''10:00:05''), ClickAdd B),
         ((''2024-01-01'', ''10:00:09''), ClickRemove B 0),
         ((''2024-01-01'', ''10:00:20''), SetCustomerName (ustr ''Asha'')),
         ((''2024-01-01'', ''10:00:30''), ClickSave),
         ((''2024-01-01'', ''10:00:40''), ClickAdd B)]
        (defaults, \<lparr>rows = [], seq = 0\<rparr>))) = 4
   \<and> length (rows (snd (runs
        [((''2024-01-01'', ''10:00:00''), NoEvent),
         ((''2024-01-01'', ''10:00:05''), ClickAdd B),
         ((''2024-01-01'', ''10:00:09''), ClickRemove B 0),
         ((''2024-01-01'', ''10:00:20''), SetCustomerName (ustr ''Asha'')),
         ((''2024-01-01'', ''10:00:30''), ClickSave),
         ((''2024-01-01'', ''10:00:40''), ClickAdd B)]
        (defaults, \<lparr>rows = [], seq = 0\<rparr>)))) = 1"
    by (simp add: run_defs)
  from add_remove_restores_ids_fresh [of B "defaults\<lparr>b_entries := [\<lparr>amount = 0, charge_pct = 0, item_id = Some 1\<rparr>], b_counter := 2\<rparr>" "(''2024-01-01'', ''10:00:00'')" "\<lparr>rows = [], seq = 0\<rparr>" "(''2024-01-01'', ''10:00:05'')"]
    add_remove_restores_ids_fresh [of B defaults _ "\<lparr>rows = [], seq = 0\<rparr>" _ "[((''2024-01-01'', ''10:00:00''), NoEvent),
         ((''2024-01-01'', ''10:00:05''), ClickAdd B),
         ((''2024-01-01'', ''10:00:09''), ClickRemove B 0),
         ((''2024-01-01'', ''10:00:20''), SetCustomerName (ustr ''Asha'')),
         ((''2024-01-01'', ''10:00:30''), ClickSave),
         ((''2024-01-01'', ''10:00:40''), ClickAdd B)]"] h v inv e
  show ?thesis by blast
qed

end
